theory Spec2Isabelle
  imports
    Main
    "HOL-Library.Char_ord"
    "HOL-Library.List_Lexorder"
    "HOL-Library.Product_Lexorder"
    "HOL-Library.AList"
begin

section \<open>Strings\<close>

text \<open>
  A Python \<open>str\<close> is modelled as a \<open>string\<close>; a \<open>char\<close> stands for the code
  point of the same number, so the model covers the code points below 256. The order on
  strings is the lexicographic order on code points, which is how Python compares
  \<open>str\<close> values.
\<close>

definition py_isspace :: "char \<Rightarrow> bool" where
  \<comment> \<open>\<open>str.isspace\<close> on one code point below 256\<close>
  "py_isspace c =
     (let n = (of_char c :: nat)
      in (9 \<le> n \<and> n \<le> 13) \<or> (28 \<le> n \<and> n \<le> 32) \<or> n = 133 \<or> n = 160)"

definition py_strip :: "string \<Rightarrow> string" where
  \<comment> \<open>\<open>str.strip()\<close>\<close>
  "py_strip s = rev (dropWhile py_isspace (rev (dropWhile py_isspace s)))"

definition lower_char :: "char \<Rightarrow> char" where
  \<comment> \<open>\<open>str.lower()\<close> on one code point below 256: A-Z and the Latin-1 capitals\<close>
  "lower_char c =
     (let n = (of_char c :: nat)
      in if (65 \<le> n \<and> n \<le> 90) \<or> (192 \<le> n \<and> n \<le> 222 \<and> n \<noteq> 215)
         then char_of (n + 32) else c)"

definition py_lower :: "string \<Rightarrow> string" where
  "py_lower s = map lower_char s"

definition py_replace :: "char \<Rightarrow> char \<Rightarrow> string \<Rightarrow> string" where
  \<comment> \<open>\<open>str.replace(old, new)\<close> for one-character \<open>old\<close> and \<open>new\<close>\<close>
  "py_replace old new s = map (\<lambda>c. if c = old then new else c) s"

definition or_empty :: "string option \<Rightarrow> string" where
  \<comment> \<open>\<open>x or ""\<close> for an optional string \<open>x\<close>\<close>
  "or_empty x = (case x of None \<Rightarrow> [] | Some s \<Rightarrow> s)"

definition or_none :: "string \<Rightarrow> string option" where
  \<comment> \<open>\<open>s or None\<close>\<close>
  "or_none s = (if s = [] then None else Some s)"


section \<open>final.py: training and agreement records\<close>

definition EXT_SUFFIX :: string where
  "EXT_SUFFIX = ''#EXT#@liveuclac.onmicrosoft.com''"

definition LOCAL_SUFFIX :: string where
  "LOCAL_SUFFIX = ''@ucl.ac.uk''"

definition normalise_username :: "string \<Rightarrow> string" where
  "normalise_username v =
     (let v = py_lower (py_strip v)
      in if CHR ''@'' \<in> set v
         then py_replace (CHR ''@'') (CHR ''_'') v @ EXT_SUFFIX
         else v @ LOCAL_SUFFIX)"

text \<open>
  \<open>datetime.strptime(s, "%d/%m/%Y")\<close> and \<open>"%Y-%m-%d"\<close>. The library compiles
  the format to a regular expression, matches it at the start of the text, rejects text
  left over after the match, converts the three groups with \<open>int\<close> and builds the
  date, which fails outside the calendar. The groups are
  \<^verbatim>\<open>d = 3[0-1]|[1-2]\d|0[1-9]|[1-9]| [1-9]\<close>,
  \<^verbatim>\<open>m = 1[0-2]|0[1-9]|[1-9]\<close> and \<^verbatim>\<open>Y = \d\d\d\d\<close>.
  A match is a pair of the matched text and the rest; the matches of a group are listed
  in the order in which the alternatives are tried.
\<close>

record datetime =
  dt_year :: nat
  dt_month :: nat
  dt_day :: nat

definition is_digit :: "char \<Rightarrow> bool" where
  "is_digit c = (CHR ''0'' \<le> c \<and> c \<le> CHR ''9'')"

definition is_digit19 :: "char \<Rightarrow> bool" where
  "is_digit19 c = (CHR ''1'' \<le> c \<and> c \<le> CHR ''9'')"

definition re_chars :: "(char \<Rightarrow> bool) list \<Rightarrow> string \<Rightarrow> (string \<times> string) list" where
  \<comment> \<open>one character class after the other\<close>
  "re_chars ps s =
     (if length ps \<le> length s \<and> list_all2 (\<lambda>p c. p c) ps (take (length ps) s)
      then [(take (length ps) s, drop (length ps) s)] else [])"

definition re_alt :: "(char \<Rightarrow> bool) list list \<Rightarrow> string \<Rightarrow> (string \<times> string) list" where
  "re_alt alts s = concat (map (\<lambda>ps. re_chars ps s) alts)"

definition RE_d :: "(char \<Rightarrow> bool) list list" where
  "RE_d = [[(=) CHR ''3'', \<lambda>c. c \<in> set ''01''],
           [\<lambda>c. c \<in> set ''12'', is_digit],
           [(=) CHR ''0'', is_digit19],
           [is_digit19],
           [(=) CHR '' '', is_digit19]]"

definition RE_m :: "(char \<Rightarrow> bool) list list" where
  "RE_m = [[(=) CHR ''1'', \<lambda>c. c \<in> set ''012''],
           [(=) CHR ''0'', is_digit19],
           [is_digit19]]"

definition RE_Y :: "(char \<Rightarrow> bool) list list" where
  "RE_Y = [[is_digit, is_digit, is_digit, is_digit]]"

definition group_int :: "string \<Rightarrow> nat" where
  \<comment> \<open>\<open>int\<close> of a matched group: decimal digits, after a space in one alternative of \<open>d\<close>\<close>
  "group_int g = foldl (\<lambda>n c. 10 * n + (of_char c - 48)) 0 (py_strip g)"

definition is_leap :: "nat \<Rightarrow> bool" where
  "is_leap y = (y mod 4 = 0 \<and> (y mod 100 \<noteq> 0 \<or> y mod 400 = 0))"

definition days_in_month :: "nat \<Rightarrow> nat \<Rightarrow> nat" where
  "days_in_month y m =
     (if m = 2 then (if is_leap y then 29 else 28)
      else if m \<in> {4, 6, 9, 11} then 30 else 31)"

definition make_date :: "nat \<Rightarrow> nat \<Rightarrow> nat \<Rightarrow> datetime option" where
  \<comment> \<open>the date constructor: years 1 to 9999, a month, a day of that month\<close>
  "make_date y m d =
     (if 1 \<le> y \<and> y \<le> 9999 \<and> 1 \<le> m \<and> m \<le> 12 \<and> 1 \<le> d \<and> d \<le> days_in_month y m
      then Some \<lparr>dt_year = y, dt_month = m, dt_day = d\<rparr> else None)"

definition strptime_dmy :: "string \<Rightarrow> datetime option" where
  \<comment> \<open>\<open>datetime.strptime(s, "%d/%m/%Y")\<close>; \<open>None\<close> is the \<open>ValueError\<close>\<close>
  "strptime_dmy s =
     (case [(d, m, y, r).
              (d, s1) \<leftarrow> re_alt RE_d s, (_, s2) \<leftarrow> re_chars [(=) CHR ''/''] s1,
              (m, s3) \<leftarrow> re_alt RE_m s2, (_, s4) \<leftarrow> re_chars [(=) CHR ''/''] s3,
              (y, r) \<leftarrow> re_alt RE_Y s4] of
        [] \<Rightarrow> None
      | (d, m, y, r) # _ \<Rightarrow>
          if r \<noteq> [] then None else make_date (group_int y) (group_int m) (group_int d))"

definition strptime_ymd :: "string \<Rightarrow> datetime option" where
  \<comment> \<open>\<open>datetime.strptime(s, "%Y-%m-%d")\<close>\<close>
  "strptime_ymd s =
     (case [(y, m, d, r).
              (y, s1) \<leftarrow> re_alt RE_Y s, (_, s2) \<leftarrow> re_chars [(=) CHR ''-''] s1,
              (m, s3) \<leftarrow> re_alt RE_m s2, (_, s4) \<leftarrow> re_chars [(=) CHR ''-''] s3,
              (d, r) \<leftarrow> re_alt RE_d s4] of
        [] \<Rightarrow> None
      | (y, m, d, r) # _ \<Rightarrow>
          if r \<noteq> [] then None else make_date (group_int y) (group_int m) (group_int d))"

text \<open>
  \<open>dt.strftime("%Y-%m-%d")\<close> as CPython runs it on Linux: the C library prints the
  year in decimal without leading zeros (\<open>999\<close> for the year 999), the month and the
  day in two digits. A date has a month and a day below 100.
\<close>

definition digit_char :: "nat \<Rightarrow> char" where
  "digit_char k = char_of (48 + k mod 10)"

fun decimal :: "nat \<Rightarrow> string" where
  "decimal n = (if n < 10 then [digit_char n] else decimal (n div 10) @ [digit_char n])"

declare decimal.simps [simp del]

definition strftime_ymd :: "datetime \<Rightarrow> string" where
  "strftime_ymd dt =
     decimal (dt_year dt) @ ''-'' @
     [digit_char (dt_month dt div 10), digit_char (dt_month dt)] @ ''-'' @
     [digit_char (dt_day dt div 10), digit_char (dt_day dt)]"

text \<open>
  A row of \<open>csv.DictReader\<close> maps a column name to the text of its cell; \<open>row.get\<close> is
  \<open>None\<close> for a column the file does not have and for a cell a short line leaves out.
  A \<open>dict\<close> that is iterated is an association list with distinct keys in insertion
  order: \<open>d[k] = v\<close> is \<open>AList.update k v d\<close>, which replaces the value of a key in
  place and appends a new key.
\<close>

type_synonym row = "string \<Rightarrow> string option"

record Record =
  username :: string
  has_signed_agreement :: bool
  nhsd_training_completed_at :: "datetime option"

definition load_training_row ::
  "(string \<times> datetime option) list \<Rightarrow> row \<Rightarrow> (string \<times> datetime option) list" where
  \<comment> \<open>the body of the loop of \<open>load_training\<close>\<close>
  "load_training_row training row =
     (let other_email = py_strip (or_empty (row ''Other email''));
          userid = py_strip (or_empty (row ''UserID''));
          date_str = py_strip (or_empty (row ''LastTrained''));
          training_date = (if date_str \<noteq> [] then strptime_dmy date_str else None)
      in if other_email \<noteq> []
         then AList.update (normalise_username other_email) training_date training
         else if userid \<noteq> []
         then AList.update (normalise_username userid) training_date training
         else training)"

definition load_training :: "row list \<Rightarrow> (string \<times> datetime option) list" where
  "load_training rows = foldl load_training_row [] rows"

definition load_agreements_row :: "(string \<times> bool) list \<Rightarrow> row \<Rightarrow> (string \<times> bool) list" where
  \<comment> \<open>the body of the loop of \<open>load_agreements\<close>\<close>
  "load_agreements_row agreements row =
     (if or_empty (row ''UserID'') = [] \<or> or_empty (row ''Approved'') = []
      then agreements
      else let user = normalise_username (or_empty (row ''UserID''));
               has_signed = (py_lower (py_strip (or_empty (row ''Approved''))) = ''true'')
           in AList.update user has_signed agreements)"

definition load_agreements :: "row list \<Rightarrow> (string \<times> bool) list" where
  "load_agreements rows = foldl load_agreements_row [] rows"

definition merge_users ::
  "(string \<times> datetime option) list \<Rightarrow> (string \<times> bool) list \<Rightarrow> Record list" where
  \<comment> \<open>\<open>merge_records\<close> after the two files are loaded\<close>
  "merge_users training agreements =
     (let all_users = sorted_list_of_set (set (map fst training) \<union> set (map fst agreements))
      in map (\<lambda>user.
            \<lparr>username = user,
             has_signed_agreement = (case map_of agreements user of None \<Rightarrow> False | Some b \<Rightarrow> b),
             nhsd_training_completed_at = (case map_of training user of None \<Rightarrow> None | Some d \<Rightarrow> d)\<rparr>)
           all_users)"

definition merge_records :: "row list \<Rightarrow> row list \<Rightarrow> Record list" where
  \<comment> \<open>the arguments are the rows of \<open>training.csv\<close> and of \<open>agreement.csv\<close>\<close>
  "merge_records training_rows agreement_rows =
     merge_users (load_training training_rows) (load_agreements agreement_rows)"


section \<open>gptstudies.py: studies with their assets and contracts\<close>

definition VALIDATE_DATES :: bool where
  "VALIDATE_DATES = True"

definition to_bool :: "string option \<Rightarrow> bool" where
  "to_bool s = (py_lower (py_strip (or_empty s)) \<in> {''true'', ''1'', ''yes'', ''y''})"

definition parse_date :: "string option \<Rightarrow> string option" where
  "parse_date date_str =
     (let ds = py_strip (or_empty date_str)
      in if ds = [] then None
         else case strptime_dmy ds of
                None \<Rightarrow> None
              | Some dt \<Rightarrow> Some (strftime_ymd dt))"

definition validate_json_date :: "string option \<Rightarrow> datetime option" where
  "validate_json_date date_str =
     (let ds = py_strip (or_empty date_str)
      in if ds = [] then None else strptime_ymd ds)"

text \<open>
  \<open>int(text)\<close> in base 10: white space around, a sign, then digits with single
  underscores between them, and no more digits than the interpreter's limit.
\<close>

definition int_isspace :: "char \<Rightarrow> bool" where
  \<comment> \<open>the white space \<open>int\<close> skips; not the separators 28 to 31\<close>
  "int_isspace c =
     (let n = (of_char c :: nat) in (9 \<le> n \<and> n \<le> 13) \<or> n = 32 \<or> n = 133 \<or> n = 160)"

definition int_max_str_digits :: nat where
  "int_max_str_digits = 4300"

fun int_digits_ok :: "string \<Rightarrow> bool" where
  \<comment> \<open>a digit first and last, every underscore between two digits\<close>
  "int_digits_ok [] = False"
| "int_digits_ok [c] = is_digit c"
| "int_digits_ok (c # d # r) =
     (is_digit c \<and> (if d = CHR ''_'' then int_digits_ok r else int_digits_ok (d # r)))"

definition py_int :: "string \<Rightarrow> int option" where
  \<comment> \<open>\<open>None\<close> is the \<open>ValueError\<close>\<close>
  "py_int s =
     (let t = rev (dropWhile int_isspace (rev (dropWhile int_isspace s)));
          neg = (t \<noteq> [] \<and> hd t = CHR ''-'');
          u = (if t \<noteq> [] \<and> hd t \<in> set ''+-'' then tl t else t);
          ds = filter is_digit u
      in if int_digits_ok u \<and> length ds \<le> int_max_str_digits
         then let n = foldl (\<lambda>n c. 10 * n + (int (of_char c) - 48)) 0 ds
              in Some (if neg then - n else n)
         else None)"

datatype error =
    MissingCaseRef string nat
      \<comment> \<open>\<open>ValueError(f"{kind} row missing CaseRef (line {i})")\<close>\<close>
  | InvalidDateFormat string nat string
      \<comment> \<open>\<open>ValueError(f"Invalid date format (expected DD/MM/YYYY) in {file} line {i}: {raw!r}")\<close>\<close>
  | InvalidLiteralForInt string
      \<comment> \<open>the \<open>ValueError\<close> of \<open>int\<close>\<close>

record contract =
  c_creator_userID :: string
  c_caseref :: string
  c_contract_sp_id :: string
  c_filename :: string
  c_status :: string
  c_start_date :: "string option"
  c_expiry_date :: "string option"
  c_organisation_signatory :: "string option"
  c_third_party_name :: "string option"
  c_creator_username :: "string option"

record asset =
  a_creator_userID :: string
  a_caseref :: string
  a_asset_sp_id :: string
  a_title :: string
  a_description :: string
  a_classification_impact :: string
  a_tier :: int
  a_protection :: string
  a_legal_basis :: string
  a_format :: string
  a_expires_at :: "string option"
  a_requires_contract :: bool
  a_has_dspt :: bool
  a_stored_outside_uk_eea :: bool
  a_status :: string
  a_locations :: "string option"

record study =
  s_caseref :: string
  s_owner_user_id :: string
  s_admin_user_id :: string
  s_title :: string
  s_approval_status :: string
  s_description :: "string option"
  s_data_controller_organisation :: string
  s_involves_ucl_sponsorship :: bool
  s_involves_cag :: bool
  s_cag_reference :: "string option"
  s_involves_ethics_approval :: bool
  s_involves_hra_approval :: bool
  s_iras_id :: "string option"
  s_is_nhs_associated :: bool
  s_involves_nhs_england :: bool
  s_nhs_england_reference :: "string option"
  s_involves_mnca :: bool
  s_requires_dspt :: bool
  s_requires_dbs :: bool
  s_is_data_protection_office_registered :: "bool option"
  s_data_protection_number :: "string option"
  s_involves_third_party :: bool
  s_involves_external_users :: bool
  s_involves_participant_consent :: bool
  s_involves_indirect_data_collection :: bool
  s_involves_data_processing_outside_uk_eea :: bool
  s_dsh_active :: bool
  s_last_signoff :: "string option"
  s_feedback :: "string option"
  s_contracts :: "contract list"
  s_assets :: "asset list"

definition text_field :: "row \<Rightarrow> string \<Rightarrow> string" where
  \<comment> \<open>\<open>(row.get(k) or "").strip()\<close>\<close>
  "text_field row k = py_strip (or_empty (row k))"

definition study_of_row :: "string \<Rightarrow> row \<Rightarrow> study" where
  \<comment> \<open>the record \<open>read_studies\<close> stores under \<open>case_ref\<close>\<close>
  "study_of_row case_ref row =
     \<lparr>s_caseref = case_ref,
      s_owner_user_id = text_field row ''OwnerUserID'',
      s_admin_user_id = text_field row ''AdminUserID'',
      s_title = text_field row ''Title'',
      s_approval_status = text_field row ''ApprovalStatus'',
      s_description = or_none (text_field row ''Description''),
      s_data_controller_organisation = text_field row ''DataControllerOrganisation'',
      s_involves_ucl_sponsorship = to_bool (row ''InvolvesUclSponsorship''),
      s_involves_cag = to_bool (row ''InvolvesCag''),
      s_cag_reference = or_none (text_field row ''CagReference''),
      s_involves_ethics_approval = to_bool (row ''InvolvesEthicsApproval''),
      s_involves_hra_approval = to_bool (row ''InvolvesHraApproval''),
      s_iras_id = or_none (text_field row ''IrasId''),
      s_is_nhs_associated = to_bool (row ''IsNhsAssociated''),
      s_involves_nhs_england = to_bool (row ''InvolvesNhsEngland''),
      s_nhs_england_reference = or_none (text_field row ''NhsEnglandReference''),
      s_involves_mnca = to_bool (row ''InvolvesMnca''),
      s_requires_dspt = to_bool (row ''RequiresDspt''),
      s_requires_dbs = to_bool (row ''RequiresDbs''),
      s_is_data_protection_office_registered =
        (if text_field row ''DataProtectionNumber'' \<noteq> [] then Some True else None),
      s_data_protection_number = or_none (text_field row ''DataProtectionNumber''),
      s_involves_third_party = to_bool (row ''InvolvesThirdParty''),
      s_involves_external_users = to_bool (row ''InvolvesExternalUsers''),
      s_involves_participant_consent = to_bool (row ''InvolvesParticipantConsent''),
      s_involves_indirect_data_collection = to_bool (row ''InvolvesIndirectDataCollection''),
      s_involves_data_processing_outside_uk_eea =
        to_bool (row ''InvolvesDataProcessingOutsideUkEea''),
      s_dsh_active = to_bool (row ''DSHActive''),
      s_last_signoff = parse_date (row ''IAOSignoff''),
      s_feedback = or_none (text_field row ''Feedback''),
      s_contracts = [],
      s_assets = []\<rparr>"

fun read_studies_from ::
  "nat \<Rightarrow> (string \<times> study) list \<Rightarrow> row list \<Rightarrow> error + (string \<times> study) list" where
  \<comment> \<open>the loop of \<open>read_studies\<close> from line \<open>i\<close> on\<close>
  "read_studies_from i studies [] = Inr studies"
| "read_studies_from i studies (row # rows) =
     (let case_ref = text_field row ''CaseRef''
      in if case_ref = [] then Inl (MissingCaseRef ''Study'' i)
         else read_studies_from (Suc i)
                (AList.update case_ref (study_of_row case_ref row) studies) rows)"

definition read_studies :: "row list \<Rightarrow> error + (string \<times> study) list" where
  \<comment> \<open>the header is line 1, the first row line 2\<close>
  "read_studies rows = read_studies_from 2 [] rows"

definition asset_of_row :: "nat \<Rightarrow> row \<Rightarrow> error + asset" where
  \<comment> \<open>one turn of the loop of \<open>read_assets_by_case\<close>, up to the asset it files\<close>
  "asset_of_row i row =
     (let case_ref = text_field row ''CaseRef''
      in if case_ref = [] then Inl (MissingCaseRef ''Asset'' i)
         else
           let expires_raw = row ''Next Scheduled Review'';
               expires_at = parse_date expires_raw
           in if VALIDATE_DATES \<and> py_strip (or_empty expires_raw) \<noteq> [] \<and> expires_at = None
              then Inl (InvalidDateFormat ''assets.csv'' i (or_empty expires_raw))
              else
                let tier_text = (if or_empty (row ''Tier'') = [] then ''0''
                                 else or_empty (row ''Tier''))
                in case py_int tier_text of
                     None \<Rightarrow> Inl (InvalidLiteralForInt tier_text)
                   | Some tier \<Rightarrow>
                       Inr \<lparr>a_creator_userID = text_field row ''Created By'',
                            a_caseref = case_ref,
                            a_asset_sp_id = text_field row ''ID'',
                            a_title = text_field row ''Description'',
                            a_description = text_field row ''Description'',
                            a_classification_impact = text_field row ''Classification'',
                            a_tier = tier,
                            a_protection = text_field row ''Impact Mitigation'',
                            a_legal_basis = text_field row ''Legal Basis'',
                            a_format = text_field row ''Format'',
                            a_expires_at = expires_at,
                            a_requires_contract = to_bool (row ''RequiresContract''),
                            a_has_dspt = to_bool (row ''DSP Toolkit''),
                            a_stored_outside_uk_eea = to_bool (row ''Outside EEA''),
                            a_status = text_field row ''STATUS'',
                            a_locations = row ''Current Location''\<rparr>)"

definition append_under :: "string \<Rightarrow> 'a \<Rightarrow> (string \<times> 'a list) list \<Rightarrow> (string \<times> 'a list) list" where
  \<comment> \<open>\<open>grouped.setdefault(case_ref, []).append(x)\<close>\<close>
  "append_under case_ref x grouped = AList.map_default case_ref [x] (\<lambda>xs. xs @ [x]) grouped"

fun read_assets_from ::
  "nat \<Rightarrow> (string \<times> asset list) list \<Rightarrow> row list \<Rightarrow> error + (string \<times> asset list) list" where
  "read_assets_from i grouped [] = Inr grouped"
| "read_assets_from i grouped (row # rows) =
     (case asset_of_row i row of
        Inl e \<Rightarrow> Inl e
      | Inr a \<Rightarrow> read_assets_from (Suc i) (append_under (a_caseref a) a grouped) rows)"

definition read_assets_by_case :: "row list \<Rightarrow> error + (string \<times> asset list) list" where
  "read_assets_by_case rows = read_assets_from 2 [] rows"

definition contract_of_row :: "nat \<Rightarrow> row \<Rightarrow> error + contract" where
  \<comment> \<open>one turn of the loop of \<open>read_study_contracts\<close>, up to the contract it files\<close>
  "contract_of_row i row =
     (let case_ref = text_field row ''CaseRef''
      in if case_ref = [] then Inl (MissingCaseRef ''Contract'' i)
         else
           let start_raw = row ''Agreement date'';
               start_date = parse_date start_raw
           in if VALIDATE_DATES \<and> py_strip (or_empty start_raw) \<noteq> [] \<and> start_date = None
              then Inl (InvalidDateFormat ''contracts.csv'' i (or_empty start_raw))
              else
                let end_raw = row ''Contract expiry or review date'';
                    end_date = parse_date end_raw
                in if VALIDATE_DATES \<and> py_strip (or_empty end_raw) \<noteq> [] \<and> end_date = None
                   then Inl (InvalidDateFormat ''contracts.csv'' i (or_empty end_raw))
                   else
                     Inr \<lparr>c_creator_userID = text_field row ''Created By'',
                          c_caseref = case_ref,
                          c_contract_sp_id = text_field row ''ID'',
                          c_filename = text_field row ''Agreement Reference'',
                          c_status = text_field row ''STATUS'',
                          c_start_date = start_date,
                          c_expiry_date = end_date,
                          c_organisation_signatory = or_none (text_field row ''UCL signatory''),
                          c_third_party_name = or_none (text_field row ''Third party''),
                          c_creator_username = or_none (text_field row ''CreatorUsername'')\<rparr>)"

fun read_contracts_from ::
  "nat \<Rightarrow> (string \<times> contract list) list \<Rightarrow> row list \<Rightarrow> error + (string \<times> contract list) list" where
  "read_contracts_from i grouped [] = Inr grouped"
| "read_contracts_from i grouped (row # rows) =
     (case contract_of_row i row of
        Inl e \<Rightarrow> Inl e
      | Inr c \<Rightarrow> read_contracts_from (Suc i) (append_under (c_caseref c) c grouped) rows)"

definition read_study_contracts :: "row list \<Rightarrow> error + (string \<times> contract list) list" where
  "read_study_contracts rows = read_contracts_from 2 [] rows"

definition dict_get :: "('k \<times> 'v) list \<Rightarrow> 'k \<Rightarrow> 'v \<Rightarrow> 'v" where
  \<comment> \<open>\<open>d.get(k, default)\<close>\<close>
  "dict_get d k dflt = (case map_of d k of None \<Rightarrow> dflt | Some v \<Rightarrow> v)"

definition restore_expiry :: "asset \<Rightarrow> asset" where
  \<comment> \<open>the loop over the assets: it stores the expiry date it has just read\<close>
  "restore_expiry a =
     (case a_expires_at a of None \<Rightarrow> a | Some expiry \<Rightarrow> a\<lparr>a_expires_at := Some expiry\<rparr>)"

definition attach :: "(string \<times> asset list) list \<Rightarrow> (string \<times> contract list) list \<Rightarrow>
    string \<times> study \<Rightarrow> study" where
  \<comment> \<open>the body of the loop of \<open>build_import_json\<close>; \<open>list.sort\<close> is stable, as \<open>sort_key\<close> is\<close>
  "attach assets_by_case study_contracts_by_case item =
     (case item of (case_ref, study) \<Rightarrow>
        let assets = map restore_expiry (dict_get assets_by_case case_ref [])
        in study\<lparr>s_contracts := dict_get study_contracts_by_case case_ref [],
                 s_assets := sort_key (\<lambda>a. (a_asset_sp_id a, a_title a)) assets\<rparr>)"

definition build_import_json ::
  "(string \<times> study) list \<Rightarrow> (string \<times> asset list) list \<Rightarrow> (string \<times> contract list) list \<Rightarrow>
    study list" where
  "build_import_json studies assets_by_case study_contracts_by_case =
     sort_key s_caseref (map (attach assets_by_case study_contracts_by_case) studies)"

datatype issue =
    StudyMissingCaseRef
      \<comment> \<open>\<open>"Study missing CaseRef"\<close>\<close>
  | DuplicateCaseRef string
      \<comment> \<open>\<open>f"Duplicate CaseRef in merged data: {cr}"\<close>\<close>
  | ContractMissingId string
      \<comment> \<open>\<open>f"Study {cr}: contract missing contract_sp_id"\<close>\<close>
  | DuplicateContract string
      \<comment> \<open>\<open>f"Duplicate contract_sp_id: {cref}"\<close>\<close>
  | InvalidStartDate string string string
      \<comment> \<open>\<open>f"Study {cr}: contract {cref} invalid start_date: {sd}"\<close>\<close>
  | InvalidExpiryDate string string string
      \<comment> \<open>\<open>f"Study {cr}: contract {cref} invalid expiry_date: {ed}"\<close>\<close>
  | DuplicateAsset string
      \<comment> \<open>\<open>f"Duplicate asset_sp_id: {aref}"\<close>\<close>
  | InvalidExpiresAt string string string
      \<comment> \<open>\<open>f"Study {cr}: asset {aref} invalid expires_at: {ex}"\<close>\<close>

record vstate =
  errors :: "issue list"
  seen_case :: "string set"
  seen_asset :: "string set"
  seen_contract :: "string set"

definition add_error :: "issue \<Rightarrow> vstate \<Rightarrow> vstate" where
  \<comment> \<open>\<open>errors.append(e)\<close>\<close>
  "add_error e st = st\<lparr>errors := errors st @ [e]\<rparr>"

definition validate_contract :: "bool \<Rightarrow> string \<Rightarrow> vstate \<Rightarrow> contract \<Rightarrow> vstate" where
  \<comment> \<open>the body of the loop over the contracts of the study \<open>cr\<close>\<close>
  "validate_contract validate_dates cr st c =
     (let cref = c_contract_sp_id c;
          st = (if cref = [] then add_error (ContractMissingId cr) st
                else if cref \<in> seen_contract st then add_error (DuplicateContract cref) st
                else st\<lparr>seen_contract := insert cref (seen_contract st)\<rparr>)
      in if validate_dates
         then
           let sd = or_empty (c_start_date c);
               ed = or_empty (c_expiry_date c);
               st = (if sd \<noteq> [] \<and> validate_json_date (Some sd) = None
                     then add_error (InvalidStartDate cr cref sd) st else st)
           in if ed \<noteq> [] \<and> validate_json_date (Some ed) = None
              then add_error (InvalidExpiryDate cr cref ed) st else st
         else st)"

definition validate_asset :: "bool \<Rightarrow> string \<Rightarrow> vstate \<Rightarrow> asset \<Rightarrow> vstate" where
  \<comment> \<open>the body of the loop over the assets of the study \<open>cr\<close>\<close>
  "validate_asset validate_dates cr st a =
     (let aref = a_asset_sp_id a;
          st = (if aref \<noteq> []
                then if aref \<in> seen_asset st then add_error (DuplicateAsset aref) st
                     else st\<lparr>seen_asset := insert aref (seen_asset st)\<rparr>
                else st)
      in if validate_dates
         then
           let ex = or_empty (a_expires_at a)
           in if ex \<noteq> [] \<and> validate_json_date (Some ex) = None
              then add_error (InvalidExpiresAt cr aref ex) st else st
         else st)"

definition validate_study :: "bool \<Rightarrow> vstate \<Rightarrow> study \<Rightarrow> vstate" where
  \<comment> \<open>the body of the loop over the studies\<close>
  "validate_study validate_dates st s =
     (let cr = s_caseref s;
          st = (if cr = [] then add_error StudyMissingCaseRef st
                else if cr \<in> seen_case st then add_error (DuplicateCaseRef cr) st
                else st\<lparr>seen_case := insert cr (seen_case st)\<rparr>);
          st = foldl (validate_contract validate_dates cr) st (s_contracts s)
      in foldl (validate_asset validate_dates cr) st (s_assets s))"

definition validate :: "study list \<Rightarrow> bool \<Rightarrow> issue list" where
  "validate import_data validate_dates =
     errors (foldl (validate_study validate_dates)
               \<lparr>errors = [], seen_case = {}, seen_asset = {}, seen_contract = {}\<rparr>
               import_data)"

definition main :: "row list \<Rightarrow> row list \<Rightarrow> row list \<Rightarrow> error + study list \<times> issue list" where
  \<comment> \<open>the rows of the three files to the data written to \<open>import.json\<close> and the issues
      printed; an error leaves the file unwritten\<close>
  "main studies_rows assets_rows contracts_rows =
     (case read_studies studies_rows of
        Inl e \<Rightarrow> Inl e
      | Inr studies \<Rightarrow>
          (case read_assets_by_case assets_rows of
             Inl e \<Rightarrow> Inl e
           | Inr assets_by_case \<Rightarrow>
               (case read_study_contracts contracts_rows of
                  Inl e \<Rightarrow> Inl e
                | Inr study_contracts_by_case \<Rightarrow>
                    let import_data =
                          build_import_json studies assets_by_case study_contracts_by_case
                    in Inr (import_data, validate import_data VALIDATE_DATES))))"


section \<open>Properties of the identity normaliser\<close>

lemma hd_py_strip: "py_strip s \<noteq> [] \<Longrightarrow> \<not> py_isspace (hd (py_strip s))"
proof -
  assume ne: "py_strip s \<noteq> []"
  define t where "t = dropWhile py_isspace s"
  define u where "u = rev (takeWhile py_isspace (rev t))"
  have "rev t = takeWhile py_isspace (rev t) @ dropWhile py_isspace (rev t)" by simp
  then have "t = rev (dropWhile py_isspace (rev t)) @ rev (takeWhile py_isspace (rev t))"
    by (metis rev_append rev_rev_ident)
  then have t: "t = py_strip s @ u"
    by (simp add: py_strip_def t_def u_def)
  with ne have "t \<noteq> []" and "hd t = hd (py_strip s)" by simp_all
  moreover have "\<not> py_isspace (hd t)"
    using \<open>t \<noteq> []\<close> unfolding t_def by (rule hd_dropWhile)
  ultimately show ?thesis by simp
qed

lemma py_strip_id:
  assumes "s \<noteq> []" and "\<not> py_isspace (hd s)" and "\<not> py_isspace (last s)"
  shows "py_strip s = s"
proof -
  from assms have 1: "dropWhile py_isspace s = s" by (cases s) auto
  from assms have "dropWhile py_isspace (rev s) = rev s"
    by (cases "rev s") (auto simp: last_rev hd_rev)
  with 1 show ?thesis by (simp add: py_strip_def)
qed

lemma lower_char_not_space: "\<not> py_isspace c \<Longrightarrow> \<not> py_isspace (lower_char c)"
  by (auto simp: py_isspace_def lower_char_def Let_def)

lemma normalise_username_shape:
  "normalise_username x \<noteq> [] \<and> \<not> py_isspace (hd (normalise_username x))
   \<and> \<not> py_isspace (last (normalise_username x)) \<and> CHR ''@'' \<in> set (normalise_username x)"
proof -
  define v where "v = py_strip x"
  have hv: "v \<noteq> [] \<Longrightarrow> \<not> py_isspace (hd v)" unfolding v_def by (rule hd_py_strip)
  have hl: "v \<noteq> [] \<Longrightarrow> \<not> py_isspace (hd (py_lower v))"
    using hv by (cases v) (auto simp: py_lower_def lower_char_not_space)
  have hr: "v \<noteq> [] \<Longrightarrow> \<not> py_isspace (hd (py_replace (CHR ''@'') (CHR ''_'') (py_lower v)))"
    using hl by (cases v) (auto simp: py_lower_def py_replace_def py_isspace_def)
  show ?thesis
    using hl hr
    by (cases "v = []")
      (auto simp: normalise_username_def v_def[symmetric] Let_def EXT_SUFFIX_def LOCAL_SUFFIX_def
        hd_append py_isspace_def py_lower_def py_replace_def)
qed

lemma at_in_lower: "CHR ''@'' \<in> set s \<Longrightarrow> CHR ''@'' \<in> set (py_lower s)"
  by (force simp: py_lower_def lower_char_def)

text \<open>
  Claim C1, as the specification states it: normalising a canonical identity again
  returns it unchanged. The code does not do that: the canonical form of \<open>jdoe\<close> is
  \<open>jdoe@ucl.ac.uk\<close>, which contains an \<open>@\<close> and is therefore rewritten as an
  external address.
\<close>

theorem normalise_username_idempotent_counterexample:
  "normalise_username (normalise_username ''jdoe'') \<noteq> normalise_username ''jdoe''"
  by code_simp

text \<open>
  Claim C1, amended: normalisation is total, and every canonical identity contains an
  \<open>@\<close> (both suffixes do), so normalising it a second time lowercases it, replaces each
  \<open>@\<close> by \<open>_\<close> and appends the external suffix. The result is 31 characters longer
  and never equal to the identity it was computed from.
\<close>

theorem normalise_username_twice:
  "normalise_username (normalise_username x) =
     py_replace (CHR ''@'') (CHR ''_'') (py_lower (normalise_username x)) @ EXT_SUFFIX
   \<and> length (normalise_username (normalise_username x)) = length (normalise_username x) + 31
   \<and> normalise_username (normalise_username x) \<noteq> normalise_username x"
proof -
  define y where "y = normalise_username x"
  have sh: "y \<noteq> []" "\<not> py_isspace (hd y)" "\<not> py_isspace (last y)" "CHR ''@'' \<in> set y"
    using normalise_username_shape[of x] by (simp_all add: y_def)
  then have st: "py_strip y = y" by (simp add: py_strip_id)
  have 1: "normalise_username y = py_replace (CHR ''@'') (CHR ''_'') (py_lower y) @ EXT_SUFFIX"
    using at_in_lower[OF sh(4)] by (simp add: normalise_username_def st)
  have 2: "length (normalise_username y) = length y + 31"
    unfolding 1 by (simp add: py_replace_def py_lower_def EXT_SUFFIX_def)
  then have 3: "normalise_username y \<noteq> y" by auto
  show ?thesis using 1 2 3 unfolding y_def by blast
qed


section \<open>Properties of the flat merge\<close>

lemma map_of_load_agreements_row:
  "map_of (load_agreements_row ag row) u =
     (if or_empty (row ''UserID'') \<noteq> [] \<and> or_empty (row ''Approved'') \<noteq> []
         \<and> normalise_username (or_empty (row ''UserID'')) = u
      then Some (py_lower (py_strip (or_empty (row ''Approved''))) = ''true'')
      else map_of ag u)"
  by (simp add: load_agreements_row_def Let_def update_conv')

lemma map_of_foldl_agreements:
  "map_of (foldl load_agreements_row ag rows) u =
     (case filter (\<lambda>row. or_empty (row ''UserID'') \<noteq> [] \<and> or_empty (row ''Approved'') \<noteq> []
                     \<and> normalise_username (or_empty (row ''UserID'')) = u) rows of
        [] \<Rightarrow> map_of ag u
      | r # rs \<Rightarrow> Some (py_lower (py_strip (or_empty (last (r # rs) ''Approved''))) = ''true''))"
proof (induction rows rule: rev_induct)
  case Nil
  then show ?case by simp
next
  case (snoc row rows)
  show ?case
    using snoc.IH
    by (simp add: map_of_load_agreements_row split: list.splits)
qed

text \<open>
  Claim C3: the flat join is total. The identities of the merged records are exactly the
  keys of the two maps, each identity has one record, and a record takes each facet from
  the map that has the identity: a missing agreement is \<open>False\<close>, a missing training
  date is \<open>None\<close>. \<open>merge_records\<close> is \<open>merge_users\<close> on the two maps loaded.
\<close>

theorem merge_users_total:
  "set (map username (merge_users training agreements)) = fst ` set training \<union> fst ` set agreements
   \<and> distinct (map username (merge_users training agreements))
   \<and> (\<forall>r \<in> set (merge_users training agreements).
        has_signed_agreement r =
          (case map_of agreements (username r) of None \<Rightarrow> False | Some b \<Rightarrow> b)
      \<and> nhsd_training_completed_at r =
          (case map_of training (username r) of None \<Rightarrow> None | Some d \<Rightarrow> d)
      \<and> (username r \<notin> fst ` set agreements \<longrightarrow> \<not> has_signed_agreement r)
      \<and> (username r \<notin> fst ` set training \<longrightarrow> nhsd_training_completed_at r = None))
   \<and> merge_records training_rows agreement_rows =
       merge_users (load_training training_rows) (load_agreements agreement_rows)"
proof (intro conjI ballI)
  show "set (map username (merge_users training agreements)) =
          fst ` set training \<union> fst ` set agreements"
    by (simp add: merge_users_def Let_def comp_def)
  show "distinct (map username (merge_users training agreements))"
    by (simp add: merge_users_def Let_def comp_def)
  show "merge_records training_rows agreement_rows =
          merge_users (load_training training_rows) (load_agreements agreement_rows)"
    by (simp add: merge_records_def)
next
  fix r assume r: "r \<in> set (merge_users training agreements)"
  then show "has_signed_agreement r =
      (case map_of agreements (username r) of None \<Rightarrow> False | Some b \<Rightarrow> b)"
    by (auto simp: merge_users_def Let_def)
  then show "username r \<notin> fst ` set agreements \<longrightarrow> \<not> has_signed_agreement r"
    by (simp add: map_of_eq_None_iff[THEN iffD2])
  from r show "nhsd_training_completed_at r =
      (case map_of training (username r) of None \<Rightarrow> None | Some d \<Rightarrow> d)"
    by (auto simp: merge_users_def Let_def)
  then show "username r \<notin> fst ` set training \<longrightarrow> nhsd_training_completed_at r = None"
    by (simp add: map_of_eq_None_iff[THEN iffD2])
qed

theorem merge_users_total_witness:
  "merge_users [(''a@ucl.ac.uk'', None)] [(''b@ucl.ac.uk'', True)] =
     [\<lparr>username = ''a@ucl.ac.uk'', has_signed_agreement = False,
        nhsd_training_completed_at = None\<rparr>,
      \<lparr>username = ''b@ucl.ac.uk'', has_signed_agreement = True,
        nhsd_training_completed_at = None\<rparr>]
   \<and> set (map username (merge_users [(''a@ucl.ac.uk'', None)] [(''b@ucl.ac.uk'', True)])) =
       {''a@ucl.ac.uk'', ''b@ucl.ac.uk''}
   \<and> \<not> has_signed_agreement (hd (merge_users [(''a@ucl.ac.uk'', None)] [(''b@ucl.ac.uk'', True)]))"
proof -
  let ?m = "merge_users [(''a@ucl.ac.uk'', None)] [(''b@ucl.ac.uk'', True)]"
  have 1: "?m =
     [\<lparr>username = ''a@ucl.ac.uk'', has_signed_agreement = False,
        nhsd_training_completed_at = None\<rparr>,
      \<lparr>username = ''b@ucl.ac.uk'', has_signed_agreement = True,
        nhsd_training_completed_at = None\<rparr>]"
    by code_simp
  have 2: "set (map username ?m) = {''a@ucl.ac.uk'', ''b@ucl.ac.uk''}"
    using merge_users_total [of "[(''a@ucl.ac.uk'', None)]" "[(''b@ucl.ac.uk'', True)]" "[]" "[]"]
    by auto
  have "hd ?m \<in> set ?m" and "username (hd ?m) \<notin> fst ` set [(''b@ucl.ac.uk'', True)]"
    by (simp_all add: 1)
  then have 3: "\<not> has_signed_agreement (hd ?m)"
    using merge_users_total [of "[(''a@ucl.ac.uk'', None)]" "[(''b@ucl.ac.uk'', True)]" "[]" "[]"]
    by blast
  from 1 2 3 show ?thesis by blast
qed

text \<open>
  Claim C8, as the specification states it for the agreement facet: \<open>yes\<close> is one of the
  truthy tokens, and yet an agreement row approved with \<open>yes\<close> is recorded as not signed.
\<close>

theorem agreement_yes_counterexample:
  "py_lower (py_strip ''yes'') \<in> {''true'', ''1'', ''yes'', ''y''}
   \<and> load_agreements [[''UserID'' \<mapsto> ''jdoe'', ''Approved'' \<mapsto> ''yes'']] =
       [(''jdoe@ucl.ac.uk'', False)]"
  by code_simp

text \<open>
  Claim C8, amended: \<open>to_bool\<close> is true exactly for the trimmed, lowercased tokens
  \<open>true\<close>, \<open>1\<close>, \<open>yes\<close> and \<open>y\<close>, and false for blank and absent text. It
  coerces the three boolean fields of an asset and every boolean field of a study but
  one: \<open>is_data_protection_office_registered\<close> is \<open>True\<close> when the trimmed
  \<open>DataProtectionNumber\<close> is not blank and absent otherwise. The agreement facet is
  different again: the identity's value is that of the last agreement row kept for it,
  and it is true exactly when the trimmed, lowercased \<open>Approved\<close> text of that row is
  \<open>true\<close>.
\<close>

theorem bool_facets:
  "to_bool s = (py_lower (py_strip (or_empty s)) \<in> {''true'', ''1'', ''yes'', ''y''})
   \<and> (py_strip (or_empty s) = [] \<longrightarrow> \<not> to_bool s)
   \<and> (asset_of_row i row = Inr a \<longrightarrow>
        a_requires_contract a = to_bool (row ''RequiresContract'')
      \<and> a_has_dspt a = to_bool (row ''DSP Toolkit'')
      \<and> a_stored_outside_uk_eea a = to_bool (row ''Outside EEA''))
   \<and> map_of (load_agreements rows) u =
       (case filter (\<lambda>row. or_empty (row ''UserID'') \<noteq> [] \<and> or_empty (row ''Approved'') \<noteq> []
                     \<and> normalise_username (or_empty (row ''UserID'')) = u) rows of
          [] \<Rightarrow> None
        | r # rs \<Rightarrow> Some (py_lower (py_strip (or_empty (last (r # rs) ''Approved''))) = ''true''))
   \<and> s_involves_ucl_sponsorship (study_of_row c row) = to_bool (row ''InvolvesUclSponsorship'')
   \<and> s_involves_cag (study_of_row c row) = to_bool (row ''InvolvesCag'')
   \<and> s_involves_ethics_approval (study_of_row c row) = to_bool (row ''InvolvesEthicsApproval'')
   \<and> s_involves_hra_approval (study_of_row c row) = to_bool (row ''InvolvesHraApproval'')
   \<and> s_is_nhs_associated (study_of_row c row) = to_bool (row ''IsNhsAssociated'')
   \<and> s_involves_nhs_england (study_of_row c row) = to_bool (row ''InvolvesNhsEngland'')
   \<and> s_involves_mnca (study_of_row c row) = to_bool (row ''InvolvesMnca'')
   \<and> s_requires_dspt (study_of_row c row) = to_bool (row ''RequiresDspt'')
   \<and> s_requires_dbs (study_of_row c row) = to_bool (row ''RequiresDbs'')
   \<and> s_involves_third_party (study_of_row c row) = to_bool (row ''InvolvesThirdParty'')
   \<and> s_involves_external_users (study_of_row c row) = to_bool (row ''InvolvesExternalUsers'')
   \<and> s_involves_participant_consent (study_of_row c row) =
       to_bool (row ''InvolvesParticipantConsent'')
   \<and> s_involves_indirect_data_collection (study_of_row c row) =
       to_bool (row ''InvolvesIndirectDataCollection'')
   \<and> s_involves_data_processing_outside_uk_eea (study_of_row c row) =
       to_bool (row ''InvolvesDataProcessingOutsideUkEea'')
   \<and> s_dsh_active (study_of_row c row) = to_bool (row ''DSHActive'')
   \<and> s_is_data_protection_office_registered (study_of_row c row) =
       (if text_field row ''DataProtectionNumber'' \<noteq> [] then Some True else None)"
proof -
  have 1: "to_bool s = (py_lower (py_strip (or_empty s)) \<in> {''true'', ''1'', ''yes'', ''y''})"
    by (simp add: to_bool_def)
  have 2: "py_strip (or_empty s) = [] \<longrightarrow> \<not> to_bool s"
    by (simp add: to_bool_def py_lower_def)
  have 3: "asset_of_row i row = Inr a \<longrightarrow>
        a_requires_contract a = to_bool (row ''RequiresContract'')
      \<and> a_has_dspt a = to_bool (row ''DSP Toolkit'')
      \<and> a_stored_outside_uk_eea a = to_bool (row ''Outside EEA'')"
    by (auto simp: asset_of_row_def Let_def split: if_splits option.splits)
  have 4: "map_of (load_agreements rows) u =
       (case filter (\<lambda>row. or_empty (row ''UserID'') \<noteq> [] \<and> or_empty (row ''Approved'') \<noteq> []
                     \<and> normalise_username (or_empty (row ''UserID'')) = u) rows of
          [] \<Rightarrow> None
        | r # rs \<Rightarrow> Some (py_lower (py_strip (or_empty (last (r # rs) ''Approved''))) = ''true''))"
    unfolding load_agreements_def map_of_foldl_agreements by (simp split: list.splits)
  have 5: "s_involves_ucl_sponsorship (study_of_row c row) = to_bool (row ''InvolvesUclSponsorship'')
   \<and> s_involves_cag (study_of_row c row) = to_bool (row ''InvolvesCag'')
   \<and> s_involves_ethics_approval (study_of_row c row) = to_bool (row ''InvolvesEthicsApproval'')
   \<and> s_involves_hra_approval (study_of_row c row) = to_bool (row ''InvolvesHraApproval'')
   \<and> s_is_nhs_associated (study_of_row c row) = to_bool (row ''IsNhsAssociated'')
   \<and> s_involves_nhs_england (study_of_row c row) = to_bool (row ''InvolvesNhsEngland'')
   \<and> s_involves_mnca (study_of_row c row) = to_bool (row ''InvolvesMnca'')
   \<and> s_requires_dspt (study_of_row c row) = to_bool (row ''RequiresDspt'')
   \<and> s_requires_dbs (study_of_row c row) = to_bool (row ''RequiresDbs'')
   \<and> s_involves_third_party (study_of_row c row) = to_bool (row ''InvolvesThirdParty'')
   \<and> s_involves_external_users (study_of_row c row) = to_bool (row ''InvolvesExternalUsers'')
   \<and> s_involves_participant_consent (study_of_row c row) =
       to_bool (row ''InvolvesParticipantConsent'')
   \<and> s_involves_indirect_data_collection (study_of_row c row) =
       to_bool (row ''InvolvesIndirectDataCollection'')
   \<and> s_involves_data_processing_outside_uk_eea (study_of_row c row) =
       to_bool (row ''InvolvesDataProcessingOutsideUkEea'')
   \<and> s_dsh_active (study_of_row c row) = to_bool (row ''DSHActive'')
   \<and> s_is_data_protection_office_registered (study_of_row c row) =
       (if text_field row ''DataProtectionNumber'' \<noteq> [] then Some True else None)"
    by (simp add: study_of_row_def)
  show ?thesis
    by (rule conjI [OF 1 conjI [OF 2 conjI [OF 3 conjI [OF 4 5]]]])
qed

theorem bool_facets_witness:
  "py_strip (or_empty (Some ''  '')) = [] \<and> \<not> to_bool (Some ''  '')
   \<and> \<not> isl (asset_of_row 2 [''CaseRef'' \<mapsto> ''S1'', ''DSP Toolkit'' \<mapsto> '' Y ''])
   \<and> a_has_dspt (projr (asset_of_row 2 [''CaseRef'' \<mapsto> ''S1'', ''DSP Toolkit'' \<mapsto> '' Y '']))"
proof -
  have 1: "py_strip (or_empty (Some ''  '')) = []" by code_simp
  have 2: "to_bool ([''CaseRef'' \<mapsto> ''S1'', ''DSP Toolkit'' \<mapsto> '' Y ''] ''DSP Toolkit'')" by code_simp
  have 3: "\<not> isl (asset_of_row 2 [''CaseRef'' \<mapsto> ''S1'', ''DSP Toolkit'' \<mapsto> '' Y ''])" by code_simp
  define r where "r = asset_of_row 2 [''CaseRef'' \<mapsto> ''S1'', ''DSP Toolkit'' \<mapsto> '' Y '']"
  have 4: "r = Inr (projr r)" using 3 unfolding r_def[symmetric] by (cases r) simp_all
  note f = bool_facets [where s = "Some ''  ''" and i = 2
      and row = "[''CaseRef'' \<mapsto> ''S1'', ''DSP Toolkit'' \<mapsto> '' Y '']"
      and a = "projr r", folded r_def]
  have 5: "\<not> to_bool (Some ''  '')"
    by (rule mp [OF f [THEN conjunct2, THEN conjunct1] 1])
  have 6: "a_has_dspt (projr r)"
    by (rule iffD2 [OF mp [OF f [THEN conjunct2, THEN conjunct2, THEN conjunct1] 4,
                            THEN conjunct2, THEN conjunct1] 2])
  from 1 5 3 6 show ?thesis unfolding r_def by (intro conjI)
qed

text \<open>
  Claim C9 at an agreement row whose identifier is one space: \<open>load_agreements\<close> tests
  the raw text, which is not empty, and the normaliser turns it into the bare local
  suffix, which reaches the merged records. (\<open>load_training\<close> trims before it tests.)
\<close>

theorem blank_userid_agreement:
  "merge_records [] [[''UserID'' \<mapsto> '' '', ''Approved'' \<mapsto> ''true'']] =
     [\<lparr>username = ''@ucl.ac.uk'', has_signed_agreement = True,
        nhsd_training_completed_at = None\<rparr>]"
  by code_simp


section \<open>Properties of the validator\<close>

text \<open>
  Each of the three uniqueness checks keeps a set of the keys seen and reports a key
  once for every occurrence after the first; blank keys are never added to a set.
\<close>

lemma foldl_preserve:
  assumes "\<And>st c. g (f st c) = g st"
  shows "g (foldl f st cs) = g st"
  using assms by (induction cs arbitrary: st) simp_all

lemma foldl_seen_count:
  fixes f :: "'st \<Rightarrow> 'c \<Rightarrow> 'st" and seen :: "'st \<Rightarrow> string set" and D :: "'st \<Rightarrow> nat"
    and keys :: "'c \<Rightarrow> string list"
  assumes seen: "\<And>st c. seen (f st c) = seen st \<union> (set (keys c) - {[]})"
    and D: "\<And>st c. D (f st c) = D st + (count_list (keys c) x - (if x \<in> seen st then 0 else 1))"
    and x: "x \<noteq> []"
  shows "seen (foldl f st cs) = seen st \<union> (set (concat (map keys cs)) - {[]})
       \<and> D (foldl f st cs) =
           D st + (count_list (concat (map keys cs)) x - (if x \<in> seen st then 0 else 1))"
proof (induction cs arbitrary: st)
  case Nil
  then show ?case by simp
next
  case (Cons c cs)
  have pos: "x \<in> set (keys c) \<Longrightarrow> 0 < count_list (keys c) x"
    using count_list_0_iff [of "keys c" x] by auto
  have zero: "x \<notin> set (keys c) \<Longrightarrow> count_list (keys c) x = 0"
    by (simp add: count_list_0_iff)
  have s: "seen (foldl f (f st c) cs) = seen st \<union> (set (concat (map keys (c # cs))) - {[]})"
    using Cons.IH[of "f st c"] by (auto simp: seen)
  have d: "D (foldl f (f st c) cs) =
      D st + (count_list (concat (map keys (c # cs))) x - (if x \<in> seen st then 0 else 1))"
  proof (cases "x \<in> set (keys c)")
    case True
    with pos x show ?thesis using Cons.IH[of "f st c"] by (auto simp: seen D)
  next
    case False
    with zero show ?thesis using Cons.IH[of "f st c"] by (auto simp: seen D)
  qed
  from s d show ?case by simp
qed

lemma validate_contract_seen_contract:
  "seen_contract (validate_contract vd cr st c) = seen_contract st \<union> (set [c_contract_sp_id c] - {[]})"
  by (auto simp: validate_contract_def add_error_def Let_def)

lemma validate_contract_dup:
  "x \<noteq> [] \<Longrightarrow> count_list (errors (validate_contract vd cr st c)) (DuplicateContract x) =
     count_list (errors st) (DuplicateContract x)
       + (count_list [c_contract_sp_id c] x - (if x \<in> seen_contract st then 0 else 1))"
  by (auto simp: validate_contract_def add_error_def Let_def)

lemma validate_contract_others:
  "seen_case (validate_contract vd cr st c) = seen_case st"
  "seen_asset (validate_contract vd cr st c) = seen_asset st"
  "count_list (errors (validate_contract vd cr st c)) (DuplicateCaseRef x) = count_list (errors st) (DuplicateCaseRef x)"
  "count_list (errors (validate_contract vd cr st c)) (DuplicateAsset x) = count_list (errors st) (DuplicateAsset x)"
  "count_list (errors (validate_contract vd cr st c)) (DuplicateContract []) = count_list (errors st) (DuplicateContract [])"
  by (auto simp: validate_contract_def add_error_def Let_def)

lemma validate_asset_seen_asset:
  "seen_asset (validate_asset vd cr st a) = seen_asset st \<union> (set [a_asset_sp_id a] - {[]})"
  by (auto simp: validate_asset_def add_error_def Let_def)

lemma validate_asset_dup:
  "x \<noteq> [] \<Longrightarrow> count_list (errors (validate_asset vd cr st a)) (DuplicateAsset x) =
     count_list (errors st) (DuplicateAsset x)
       + (count_list [a_asset_sp_id a] x - (if x \<in> seen_asset st then 0 else 1))"
  by (auto simp: validate_asset_def add_error_def Let_def)

lemma validate_asset_others:
  "seen_case (validate_asset vd cr st a) = seen_case st"
  "seen_contract (validate_asset vd cr st a) = seen_contract st"
  "count_list (errors (validate_asset vd cr st a)) (DuplicateCaseRef x) = count_list (errors st) (DuplicateCaseRef x)"
  "count_list (errors (validate_asset vd cr st a)) (DuplicateContract x) = count_list (errors st) (DuplicateContract x)"
  "count_list (errors (validate_asset vd cr st a)) (DuplicateAsset []) = count_list (errors st) (DuplicateAsset [])"
  by (auto simp: validate_asset_def add_error_def Let_def)


lemma validate_study_case:
  "seen_case (validate_study vd st s) = seen_case st \<union> (set [s_caseref s] - {[]})"
  "x \<noteq> [] \<Longrightarrow> count_list (errors (validate_study vd st s)) (DuplicateCaseRef x) =
     count_list (errors st) (DuplicateCaseRef x)
       + (count_list [s_caseref s] x - (if x \<in> seen_case st then 0 else 1))"
  "count_list (errors (validate_study vd st s)) (DuplicateCaseRef []) =
     count_list (errors st) (DuplicateCaseRef [])"
  unfolding validate_study_def Let_def
  by (auto simp: foldl_preserve [where g = seen_case] 
        foldl_preserve [where g = "\<lambda>st. count_list (errors st) (DuplicateCaseRef y)" for y]
        validate_asset_others validate_contract_others add_error_def)

lemma validate_study_contract:
  "seen_contract (validate_study vd st s) =
     seen_contract st \<union> (set (concat (map (\<lambda>c. [c_contract_sp_id c]) (s_contracts s))) - {[]})"
  "x \<noteq> [] \<Longrightarrow> count_list (errors (validate_study vd st s)) (DuplicateContract x) =
     count_list (errors st) (DuplicateContract x)
       + (count_list (concat (map (\<lambda>c. [c_contract_sp_id c]) (s_contracts s))) x
            - (if x \<in> seen_contract st then 0 else 1))"
  "count_list (errors (validate_study vd st s)) (DuplicateContract []) =
     count_list (errors st) (DuplicateContract [])"
proof -
  define st1 where "st1 = (if s_caseref s = [] then add_error StudyMissingCaseRef st
                else if s_caseref s \<in> seen_case st then add_error (DuplicateCaseRef (s_caseref s)) st
                else st\<lparr>seen_case := insert (s_caseref s) (seen_case st)\<rparr>)"
  define st2 where "st2 = foldl (validate_contract vd (s_caseref s)) st1 (s_contracts s)"
  have v: "validate_study vd st s = foldl (validate_asset vd (s_caseref s)) st2 (s_assets s)"
    by (simp add: validate_study_def Let_def st1_def st2_def)
  have 1: "seen_contract st1 = seen_contract st"
    "count_list (errors st1) (DuplicateContract y) = count_list (errors st) (DuplicateContract y)" for y
    by (simp_all add: st1_def add_error_def)
  show "seen_contract (validate_study vd st s) =
     seen_contract st \<union> (set (concat (map (\<lambda>c. [c_contract_sp_id c]) (s_contracts s))) - {[]})"
    unfolding v
    using foldl_seen_count [where f = "validate_contract vd (s_caseref s)" and seen = seen_contract
        and keys = "\<lambda>c. [c_contract_sp_id c]" and x = "''x''" and st = st1 and cs = "s_contracts s"
        and D = "\<lambda>st. count_list (errors st) (DuplicateContract ''x'')",
        OF validate_contract_seen_contract validate_contract_dup]
    by (simp add: foldl_preserve [where g = seen_contract] validate_asset_others 1 st2_def)
  show "count_list (errors (validate_study vd st s)) (DuplicateContract x) =
     count_list (errors st) (DuplicateContract x)
       + (count_list (concat (map (\<lambda>c. [c_contract_sp_id c]) (s_contracts s))) x
            - (if x \<in> seen_contract st then 0 else 1))" if "x \<noteq> []"
    unfolding v
    using foldl_seen_count [where f = "validate_contract vd (s_caseref s)" and seen = seen_contract
        and keys = "\<lambda>c. [c_contract_sp_id c]" and x = x and st = st1 and cs = "s_contracts s"
        and D = "\<lambda>st. count_list (errors st) (DuplicateContract x)",
        OF validate_contract_seen_contract validate_contract_dup] that
    by (simp add: foldl_preserve [where g = "\<lambda>st. count_list (errors st) (DuplicateContract x)"]
          validate_asset_others 1 st2_def)
  show "count_list (errors (validate_study vd st s)) (DuplicateContract []) =
     count_list (errors st) (DuplicateContract [])"
    unfolding v st2_def
    by (simp add: foldl_preserve [where g = "\<lambda>st. count_list (errors st) (DuplicateContract [])"]
          validate_asset_others validate_contract_others 1)
qed


lemma validate_study_asset:
  "seen_asset (validate_study vd st s) =
     seen_asset st \<union> (set (concat (map (\<lambda>a. [a_asset_sp_id a]) (s_assets s))) - {[]})"
  "x \<noteq> [] \<Longrightarrow> count_list (errors (validate_study vd st s)) (DuplicateAsset x) =
     count_list (errors st) (DuplicateAsset x)
       + (count_list (concat (map (\<lambda>a. [a_asset_sp_id a]) (s_assets s))) x
            - (if x \<in> seen_asset st then 0 else 1))"
  "count_list (errors (validate_study vd st s)) (DuplicateAsset []) =
     count_list (errors st) (DuplicateAsset [])"
proof -
  define st1 where "st1 = (if s_caseref s = [] then add_error StudyMissingCaseRef st
                else if s_caseref s \<in> seen_case st then add_error (DuplicateCaseRef (s_caseref s)) st
                else st\<lparr>seen_case := insert (s_caseref s) (seen_case st)\<rparr>)"
  define st2 where "st2 = foldl (validate_contract vd (s_caseref s)) st1 (s_contracts s)"
  have v: "validate_study vd st s = foldl (validate_asset vd (s_caseref s)) st2 (s_assets s)"
    by (simp add: validate_study_def Let_def st1_def st2_def)
  have 1: "seen_asset st1 = seen_asset st"
    "count_list (errors st1) (DuplicateAsset y) = count_list (errors st) (DuplicateAsset y)" for y
    by (simp_all add: st1_def add_error_def)
  have 2: "seen_asset st2 = seen_asset st"
    "count_list (errors st2) (DuplicateAsset y) = count_list (errors st) (DuplicateAsset y)" for y
    unfolding st2_def
    by (simp_all add: foldl_preserve [where g = seen_asset]
          foldl_preserve [where g = "\<lambda>st. count_list (errors st) (DuplicateAsset y)"]
          validate_contract_others 1)
  show "seen_asset (validate_study vd st s) =
     seen_asset st \<union> (set (concat (map (\<lambda>a. [a_asset_sp_id a]) (s_assets s))) - {[]})"
    unfolding v
    using foldl_seen_count [where f = "validate_asset vd (s_caseref s)" and seen = seen_asset
        and keys = "\<lambda>a. [a_asset_sp_id a]" and x = "''x''" and st = st2 and cs = "s_assets s"
        and D = "\<lambda>st. count_list (errors st) (DuplicateAsset ''x'')",
        OF validate_asset_seen_asset validate_asset_dup]
    by (simp add: 2)
  show "count_list (errors (validate_study vd st s)) (DuplicateAsset x) =
     count_list (errors st) (DuplicateAsset x)
       + (count_list (concat (map (\<lambda>a. [a_asset_sp_id a]) (s_assets s))) x
            - (if x \<in> seen_asset st then 0 else 1))" if "x \<noteq> []"
    unfolding v
    using foldl_seen_count [where f = "validate_asset vd (s_caseref s)" and seen = seen_asset
        and keys = "\<lambda>a. [a_asset_sp_id a]" and x = x and st = st2 and cs = "s_assets s"
        and D = "\<lambda>st. count_list (errors st) (DuplicateAsset x)",
        OF validate_asset_seen_asset validate_asset_dup] that
    by (simp add: 2)
  show "count_list (errors (validate_study vd st s)) (DuplicateAsset []) =
     count_list (errors st) (DuplicateAsset [])"
    unfolding v
    by (simp add: foldl_preserve [where g = "\<lambda>st. count_list (errors st) (DuplicateAsset [])"]
          validate_asset_others 2)
qed

lemma concat_singletons: "concat (map (\<lambda>c. [f c]) xs) = map f xs"
  by (induction xs) simp_all

lemma validate_counts:
  "count_list (validate import_data vd) (DuplicateContract x) =
     (if x = [] then 0
      else count_list (concat (map (\<lambda>s. map c_contract_sp_id (s_contracts s)) import_data)) x - 1)"
  "count_list (validate import_data vd) (DuplicateAsset x) =
     (if x = [] then 0
      else count_list (concat (map (\<lambda>s. map a_asset_sp_id (s_assets s)) import_data)) x - 1)"
  "count_list (validate import_data vd) (DuplicateCaseRef x) =
     (if x = [] then 0 else count_list (map s_caseref import_data) x - 1)"
proof -
  let ?st0 = "\<lparr>errors = [], seen_case = {}, seen_asset = {}, seen_contract = {}\<rparr>"
  show "count_list (validate import_data vd) (DuplicateContract x) =
     (if x = [] then 0
      else count_list (concat (map (\<lambda>s. map c_contract_sp_id (s_contracts s)) import_data)) x - 1)"
  proof (cases "x = []")
    case True
    then show ?thesis
      by (simp add: validate_def
            foldl_preserve [where g = "\<lambda>st. count_list (errors st) (DuplicateContract [])"]
            validate_study_contract(3))
  next
    case False
    from foldl_seen_count [where f = "validate_study vd" and seen = seen_contract
        and keys = "\<lambda>s. concat (map (\<lambda>c. [c_contract_sp_id c]) (s_contracts s))" and x = x
        and st = ?st0 and cs = import_data
        and D = "\<lambda>st. count_list (errors st) (DuplicateContract x)",
        OF validate_study_contract(1) validate_study_contract(2) False] False
    show ?thesis by (simp add: validate_def concat_singletons)
  qed
  show "count_list (validate import_data vd) (DuplicateAsset x) =
     (if x = [] then 0
      else count_list (concat (map (\<lambda>s. map a_asset_sp_id (s_assets s)) import_data)) x - 1)"
  proof (cases "x = []")
    case True
    then show ?thesis
      by (simp add: validate_def
            foldl_preserve [where g = "\<lambda>st. count_list (errors st) (DuplicateAsset [])"]
            validate_study_asset(3))
  next
    case False
    from foldl_seen_count [where f = "validate_study vd" and seen = seen_asset
        and keys = "\<lambda>s. concat (map (\<lambda>a. [a_asset_sp_id a]) (s_assets s))" and x = x
        and st = ?st0 and cs = import_data
        and D = "\<lambda>st. count_list (errors st) (DuplicateAsset x)",
        OF validate_study_asset(1) validate_study_asset(2) False] False
    show ?thesis by (simp add: validate_def concat_singletons)
  qed
  show "count_list (validate import_data vd) (DuplicateCaseRef x) =
     (if x = [] then 0 else count_list (map s_caseref import_data) x - 1)"
  proof (cases "x = []")
    case True
    then show ?thesis
      by (simp add: validate_def
            foldl_preserve [where g = "\<lambda>st. count_list (errors st) (DuplicateCaseRef [])"]
            validate_study_case(3))
  next
    case False
    from foldl_seen_count [where f = "validate_study vd" and seen = seen_case
        and keys = "\<lambda>s. [s_caseref s]" and x = x
        and st = ?st0 and cs = import_data
        and D = "\<lambda>st. count_list (errors st) (DuplicateCaseRef x)",
        OF validate_study_case(1) validate_study_case(2) False] False
    show ?thesis by (simp add: validate_def concat_singletons)
  qed
qed

lemma count_list_distinct: "distinct xs \<Longrightarrow> count_list xs x = (if x \<in> set xs then 1 else 0)"
  by (induction xs) auto

text \<open>
  Claim C6: \<open>validate\<close> returns its list of issues for every merged structure (it has
  no failing branch), and the list holds a duplicate entry for a contract identity once
  for each occurrence after the first, over all studies: exactly one entry when the
  identity occurs exactly twice. Asset identities are counted the same way when they are
  not blank, and a blank asset identity never produces a duplicate entry.
\<close>

theorem validate_duplicates:
  "count_list (validate import_data vd) (DuplicateContract x) =
     (if x = [] then 0
      else count_list (concat (map (\<lambda>s. map c_contract_sp_id (s_contracts s)) import_data)) x - 1)
   \<and> count_list (validate import_data vd) (DuplicateAsset x) =
     (if x = [] then 0
      else count_list (concat (map (\<lambda>s. map a_asset_sp_id (s_assets s)) import_data)) x - 1)
   \<and> (x \<noteq> [] \<and> count_list (concat (map (\<lambda>s. map c_contract_sp_id (s_contracts s)) import_data)) x = 2
        \<longrightarrow> count_list (validate import_data vd) (DuplicateContract x) = 1)
   \<and> DuplicateAsset [] \<notin> set (validate import_data vd)"
proof -
  note v = validate_counts [of import_data vd]
  have 3: "x \<noteq> [] \<and> count_list (concat (map (\<lambda>s. map c_contract_sp_id (s_contracts s)) import_data)) x = 2
        \<longrightarrow> count_list (validate import_data vd) (DuplicateContract x) = 1"
    unfolding v(1) by simp
  have "count_list (validate import_data vd) (DuplicateAsset []) = 0"
    unfolding v(2) by simp
  then have 4: "DuplicateAsset [] \<notin> set (validate import_data vd)"
    by (simp add: count_list_0_iff)
  show ?thesis by (rule conjI [OF v(1) conjI [OF v(2) conjI [OF 3 4]]])
qed

theorem validate_duplicates_witness:
  "count_list
     (validate [(study_of_row ''S1'' Map.empty)
        \<lparr>s_contracts :=
           replicate 2 \<lparr>c_creator_userID = [], c_caseref = ''S1'', c_contract_sp_id = ''7'',
              c_filename = [], c_status = [], c_start_date = None, c_expiry_date = None,
              c_organisation_signatory = None, c_third_party_name = None,
              c_creator_username = None\<rparr>\<rparr>] False)
     (DuplicateContract ''7'') = 1"
proof -
  define c where "c = \<lparr>c_creator_userID = [], c_caseref = ''S1'', c_contract_sp_id = ''7'',
              c_filename = [], c_status = [], c_start_date = None, c_expiry_date = None,
              c_organisation_signatory = None, c_third_party_name = None,
              c_creator_username = None\<rparr>"
  define d where "d = [(study_of_row ''S1'' Map.empty) \<lparr>s_contracts := replicate 2 c\<rparr>]"
  have i: "c_contract_sp_id c = ''7''" by (simp add: c_def)
  have h: "''7'' \<noteq> [] \<and> count_list (concat (map (\<lambda>s. map c_contract_sp_id (s_contracts s)) d)) ''7'' = 2"
    by (simp add: d_def i numeral_2_eq_2)
  have "count_list (validate d False) (DuplicateContract ''7'') = 1"
    by (rule mp [OF validate_duplicates [where import_data = d and vd = False and x = "''7''",
                   THEN conjunct2, THEN conjunct2, THEN conjunct1] h])
  then show ?thesis unfolding d_def c_def .
qed


section \<open>Properties of the readers\<close>

lemma read_studies_from_ok:
  "\<forall>row\<in>set rows. text_field row ''CaseRef'' \<noteq> [] \<Longrightarrow>
   read_studies_from i st rows =
     Inr (foldl (\<lambda>st row. AList.update (text_field row ''CaseRef'')
                   (study_of_row (text_field row ''CaseRef'') row) st) st rows)"
  by (induction rows arbitrary: i st) (simp_all add: Let_def)

lemma read_studies_from_blank:
  "k < length rows \<Longrightarrow> text_field (rows ! k) ''CaseRef'' = [] \<Longrightarrow>
   \<forall>j<k. text_field (rows ! j) ''CaseRef'' \<noteq> [] \<Longrightarrow>
   read_studies_from i st rows = Inl (MissingCaseRef ''Study'' (i + k))"
proof (induction rows arbitrary: i st k)
  case Nil
  then show ?case by simp
next
  case (Cons row rows)
  show ?case
  proof (cases k)
    case 0
    with Cons.prems show ?thesis by (simp add: Let_def)
  next
    case (Suc k')
    with Cons.prems have 0: "text_field row ''CaseRef'' \<noteq> []" by auto
    from Suc Cons.prems have "k' < length rows" "text_field (rows ! k') ''CaseRef'' = []"
      "\<forall>j<k'. text_field (rows ! j) ''CaseRef'' \<noteq> []" by auto
    from Cons.IH [OF this] 0 Suc show ?thesis by (simp add: Let_def)
  qed
qed

lemma map_of_foldl_studies:
  "map_of (foldl (\<lambda>st row. AList.update (text_field row ''CaseRef'')
                   (study_of_row (text_field row ''CaseRef'') row) st) st rows) c =
     (if \<exists>row\<in>set rows. text_field row ''CaseRef'' = c
      then Some (study_of_row c (last (filter (\<lambda>row. text_field row ''CaseRef'' = c) rows)))
      else map_of st c)"
proof (induction rows rule: rev_induct)
  case Nil
  then show ?case by simp
next
  case (snoc row rows)
  show ?case using snoc.IH by (auto simp: update_conv')
qed

lemma distinct_foldl_studies:
  "distinct (map fst st) \<Longrightarrow>
   distinct (map fst (foldl (\<lambda>st row. AList.update (text_field row ''CaseRef'')
                   (study_of_row (text_field row ''CaseRef'') row) st) st rows))"
  by (induction rows arbitrary: st) (simp_all add: distinct_update)

lemma keys_foldl_studies:
  "fst ` set (foldl (\<lambda>st row. AList.update (text_field row ''CaseRef'')
                   (study_of_row (text_field row ''CaseRef'') row) st) st rows) =
     fst ` set st \<union> (\<lambda>row. text_field row ''CaseRef'') ` set rows"
  by (induction rows arbitrary: st) (auto simp: dom_update)

lemma asset_of_row_blank:
  "text_field row ''CaseRef'' = [] \<Longrightarrow> asset_of_row i row = Inl (MissingCaseRef ''Asset'' i)"
  by (simp add: asset_of_row_def)

lemma asset_of_row_Inr:
  "asset_of_row i row = Inr a \<Longrightarrow> a_caseref a = text_field row ''CaseRef'' \<and> text_field row ''CaseRef'' \<noteq> []"
  by (auto simp: asset_of_row_def Let_def split: if_splits option.splits)

lemma contract_of_row_blank:
  "text_field row ''CaseRef'' = [] \<Longrightarrow> contract_of_row i row = Inl (MissingCaseRef ''Contract'' i)"
  by (simp add: contract_of_row_def)

lemma contract_of_row_Inr:
  "contract_of_row i row = Inr c \<Longrightarrow> c_caseref c = text_field row ''CaseRef'' \<and> text_field row ''CaseRef'' \<noteq> []"
  by (auto simp: contract_of_row_def Let_def split: if_splits)

lemma read_assets_from_first_error:
  "k < length rows \<Longrightarrow> asset_of_row (i + k) (rows ! k) = Inl e \<Longrightarrow>
   \<forall>j<k. \<not> isl (asset_of_row (i + j) (rows ! j)) \<Longrightarrow>
   read_assets_from i g rows = Inl e"
proof (induction rows arbitrary: i g k)
  case Nil
  then show ?case by simp
next
  case (Cons row rows)
  show ?case
  proof (cases k)
    case 0
    with Cons.prems show ?thesis by simp
  next
    case (Suc k')
    with Cons.prems have "\<not> isl (asset_of_row i row)" by force
    then obtain a where a: "asset_of_row i row = Inr a" by (cases "asset_of_row i row") auto
    from Suc Cons.prems have "k' < length rows" "asset_of_row (Suc i + k') (rows ! k') = Inl e"
      "\<forall>j<k'. \<not> isl (asset_of_row (Suc i + j) (rows ! j))" by auto
    from Cons.IH [OF this] a show ?thesis by simp
  qed
qed

lemma read_assets_from_some_error:
  "row \<in> set rows \<Longrightarrow> text_field row ''CaseRef'' = [] \<Longrightarrow> isl (read_assets_from i g rows)"
  by (induction rows arbitrary: i g) (auto simp: asset_of_row_blank split: sum.splits)

lemma read_contracts_from_first_error:
  "k < length rows \<Longrightarrow> contract_of_row (i + k) (rows ! k) = Inl e \<Longrightarrow>
   \<forall>j<k. \<not> isl (contract_of_row (i + j) (rows ! j)) \<Longrightarrow>
   read_contracts_from i g rows = Inl e"
proof (induction rows arbitrary: i g k)
  case Nil
  then show ?case by simp
next
  case (Cons row rows)
  show ?case
  proof (cases k)
    case 0
    with Cons.prems show ?thesis by simp
  next
    case (Suc k')
    with Cons.prems have "\<not> isl (contract_of_row i row)" by force
    then obtain a where a: "contract_of_row i row = Inr a" by (cases "contract_of_row i row") auto
    from Suc Cons.prems have "k' < length rows" "contract_of_row (Suc i + k') (rows ! k') = Inl e"
      "\<forall>j<k'. \<not> isl (contract_of_row (Suc i + j) (rows ! j))" by auto
    from Cons.IH [OF this] a show ?thesis by simp
  qed
qed

lemma read_contracts_from_some_error:
  "row \<in> set rows \<Longrightarrow> text_field row ''CaseRef'' = [] \<Longrightarrow> isl (read_contracts_from i g rows)"
  by (induction rows arbitrary: i g) (auto simp: contract_of_row_blank split: sum.splits)

lemma read_studies_from_some_error:
  "row \<in> set rows \<Longrightarrow> text_field row ''CaseRef'' = [] \<Longrightarrow> isl (read_studies_from i g rows)"
  by (induction rows arbitrary: i g) (auto simp: Let_def)

lemma map_of_append_under:
  "map_of (append_under k x g) k' =
     (if k' = k then Some (case map_of g k of None \<Rightarrow> [x] | Some xs \<Rightarrow> xs @ [x]) else map_of g k')"
  by (simp add: append_under_def map_of_map_default split: option.splits)

lemma keys_append_under: "fst ` set (append_under k x g) = insert k (fst ` set g)"
  by (simp add: append_under_def dom_map_default)

lemma read_assets_from_inv:
  "read_assets_from i g rows = Inr g' \<Longrightarrow>
   (\<And>k as a. map_of g k = Some as \<Longrightarrow> a \<in> set as \<Longrightarrow> a_caseref a = k) \<Longrightarrow>
   (\<forall>k as. map_of g' k = Some as \<longrightarrow> (\<forall>a\<in>set as. a_caseref a = k))
   \<and> fst ` set g' = fst ` set g \<union> (\<lambda>row. text_field row ''CaseRef'') ` set rows"
proof (induction rows arbitrary: i g)
  case Nil
  then show ?case by auto
next
  case (Cons row rows)
  from Cons.prems(1) obtain a where a: "asset_of_row i row = Inr a"
    and r: "read_assets_from (Suc i) (append_under (a_caseref a) a g) rows = Inr g'"
    by (auto split: sum.splits)
  have inv: "\<And>k as b. map_of (append_under (a_caseref a) a g) k = Some as \<Longrightarrow> b \<in> set as \<Longrightarrow> a_caseref b = k"
    using Cons.prems(2) by (auto simp: map_of_append_under split: if_splits option.splits)
  from Cons.IH [OF r inv] asset_of_row_Inr [OF a]
  show ?case by (auto simp: keys_append_under)
qed

lemma read_contracts_from_inv:
  "read_contracts_from i g rows = Inr g' \<Longrightarrow>
   (\<And>k cs c. map_of g k = Some cs \<Longrightarrow> c \<in> set cs \<Longrightarrow> c_caseref c = k) \<Longrightarrow>
   (\<forall>k cs. map_of g' k = Some cs \<longrightarrow> (\<forall>c\<in>set cs. c_caseref c = k))
   \<and> fst ` set g' = fst ` set g \<union> (\<lambda>row. text_field row ''CaseRef'') ` set rows"
proof (induction rows arbitrary: i g)
  case Nil
  then show ?case by auto
next
  case (Cons row rows)
  from Cons.prems(1) obtain a where a: "contract_of_row i row = Inr a"
    and r: "read_contracts_from (Suc i) (append_under (c_caseref a) a g) rows = Inr g'"
    by (auto split: sum.splits)
  have inv: "\<And>k as b. map_of (append_under (c_caseref a) a g) k = Some as \<Longrightarrow> b \<in> set as \<Longrightarrow> c_caseref b = k"
    using Cons.prems(2) by (auto simp: map_of_append_under split: if_splits option.splits)
  from Cons.IH [OF r inv] contract_of_row_Inr [OF a]
  show ?case by (auto simp: keys_append_under)
qed

lemma restore_expiry_id: "restore_expiry a = a"
  by (simp add: restore_expiry_def split: option.splits)

lemma dict_get_in:
  "x \<in> set (dict_get g k []) \<Longrightarrow> \<exists>xs. map_of g k = Some xs \<and> x \<in> set xs"
  by (cases "map_of g k") (simp_all add: dict_get_def)

lemma dict_get_absent: "k \<notin> fst ` set g \<Longrightarrow> dict_get g k d = d"
  by (simp add: dict_get_def map_of_eq_None_iff [THEN iffD2])

lemma attach_fields:
  "s_caseref (attach A C (k, st)) = s_caseref st"
  "s_contracts (attach A C (k, st)) = dict_get C k []"
  "s_assets (attach A C (k, st)) = sort_key (\<lambda>a. (a_asset_sp_id a, a_title a)) (dict_get A k [])"
  by (simp_all add: attach_def Let_def restore_expiry_id [abs_def] cong: map_cong)

lemma set_build_import_json:
  "set (build_import_json studies A C) = attach A C ` set studies"
  by (simp add: build_import_json_def)

lemma main_Inr:
  "main sr ar cr = Inr (data, issues) \<Longrightarrow>
   \<exists>studies A C. read_studies sr = Inr studies \<and> read_assets_by_case ar = Inr A
     \<and> read_study_contracts cr = Inr C \<and> data = build_import_json studies A C
     \<and> issues = validate data True"
  by (auto simp: main_def VALIDATE_DATES_def Let_def split: sum.splits)

lemma read_studies_Inr:
  "read_studies rows = Inr studies \<Longrightarrow>
   (\<forall>row\<in>set rows. text_field row ''CaseRef'' \<noteq> [])
   \<and> studies = foldl (\<lambda>st row. AList.update (text_field row ''CaseRef'')
                   (study_of_row (text_field row ''CaseRef'') row) st) [] rows"
proof -
  assume r: "read_studies rows = Inr studies"
  have 1: "\<forall>row\<in>set rows. text_field row ''CaseRef'' \<noteq> []"
  proof (rule ccontr)
    assume "\<not> ?thesis"
    then obtain row where "row \<in> set rows" "text_field row ''CaseRef'' = []" by auto
    from read_studies_from_some_error [OF this, of 2 "[]"] r show False
      by (simp add: read_studies_def)
  qed
  from read_studies_from_ok [OF 1, of 2 "[]"] r 1 show ?thesis by (simp add: read_studies_def)
qed

lemma studies_items:
  assumes "read_studies rows = Inr studies" and "(k, st) \<in> set studies"
  shows "s_caseref st = k \<and> k \<in> (\<lambda>row. text_field row ''CaseRef'') ` set rows
         \<and> st = study_of_row k (last (filter (\<lambda>row. text_field row ''CaseRef'' = k) rows))"
proof -
  let ?f = "foldl (\<lambda>st row. AList.update (text_field row ''CaseRef'')
                   (study_of_row (text_field row ''CaseRef'') row) st) [] rows"
  from read_studies_Inr [OF assms(1)] have s: "studies = ?f" by simp
  have d: "distinct (map fst studies)" unfolding s by (rule distinct_foldl_studies) simp
  with assms(2) have m: "map_of studies k = Some st" by simp
  have k: "k \<in> (\<lambda>row. text_field row ''CaseRef'') ` set rows"
    using assms(2) keys_foldl_studies [of "[]" rows] unfolding s by force
  from m have "st = study_of_row k (last (filter (\<lambda>row. text_field row ''CaseRef'' = k) rows))"
    unfolding s map_of_foldl_studies using k by (auto split: if_splits)
  then show ?thesis using k by (simp add: study_of_row_def)
qed

text \<open>
  Claim C4: a study, asset or contract row whose \<open>CaseRef\<close> is missing, empty or white
  space makes its loop turn raise the error that names the kind of row and the line
  (the header is line 1, so the row at index \<open>k\<close> is line \<open>k + 2\<close>). Whatever its
  position, the reader and the whole run then end with an error and produce no output;
  the error reported is that of the first row that fails.
\<close>

theorem blank_caseref_aborts:
  assumes "k < length rows" and "text_field (rows ! k) ''CaseRef'' = []"
  shows "asset_of_row i (rows ! k) = Inl (MissingCaseRef ''Asset'' i)
       \<and> contract_of_row i (rows ! k) = Inl (MissingCaseRef ''Contract'' i)
       \<and> ((\<forall>j<k. text_field (rows ! j) ''CaseRef'' \<noteq> []) \<longrightarrow>
            read_studies rows = Inl (MissingCaseRef ''Study'' (k + 2)))
       \<and> ((\<forall>j<k. \<not> isl (asset_of_row (j + 2) (rows ! j))) \<longrightarrow>
            read_assets_by_case rows = Inl (MissingCaseRef ''Asset'' (k + 2)))
       \<and> ((\<forall>j<k. \<not> isl (contract_of_row (j + 2) (rows ! j))) \<longrightarrow>
            read_study_contracts rows = Inl (MissingCaseRef ''Contract'' (k + 2)))
       \<and> isl (read_studies rows) \<and> isl (read_assets_by_case rows) \<and> isl (read_study_contracts rows)
       \<and> isl (main rows ar cr) \<and> isl (main sr rows cr) \<and> isl (main sr ar rows)"
proof -
  have mem: "rows ! k \<in> set rows" using assms(1) by simp
  have 1: "asset_of_row i (rows ! k) = Inl (MissingCaseRef ''Asset'' i)" for i
    using assms(2) by (rule asset_of_row_blank)
  have 2: "contract_of_row i (rows ! k) = Inl (MissingCaseRef ''Contract'' i)" for i
    using assms(2) by (rule contract_of_row_blank)
  have 3: "(\<forall>j<k. text_field (rows ! j) ''CaseRef'' \<noteq> []) \<longrightarrow>
            read_studies rows = Inl (MissingCaseRef ''Study'' (k + 2))"
    using read_studies_from_blank [OF assms, of 2 "[]"] by (simp add: read_studies_def add.commute)
  have 4: "(\<forall>j<k. \<not> isl (asset_of_row (j + 2) (rows ! j))) \<longrightarrow>
            read_assets_by_case rows = Inl (MissingCaseRef ''Asset'' (k + 2))"
    using read_assets_from_first_error [OF assms(1) 1 [of "2 + k"], of "[]"]
    by (simp add: read_assets_by_case_def add.commute)
  have 5: "(\<forall>j<k. \<not> isl (contract_of_row (j + 2) (rows ! j))) \<longrightarrow>
            read_study_contracts rows = Inl (MissingCaseRef ''Contract'' (k + 2))"
    using read_contracts_from_first_error [OF assms(1) 2 [of "2 + k"], of "[]"]
    by (simp add: read_study_contracts_def add.commute)
  have 6: "isl (read_studies rows)"
    unfolding read_studies_def by (rule read_studies_from_some_error [OF mem assms(2)])
  have 7: "isl (read_assets_by_case rows)"
    unfolding read_assets_by_case_def by (rule read_assets_from_some_error [OF mem assms(2)])
  have 8: "isl (read_study_contracts rows)"
    unfolding read_study_contracts_def by (rule read_contracts_from_some_error [OF mem assms(2)])
  have 9: "isl (main rows ar cr)" using 6 by (auto simp: main_def split: sum.splits)
  have 10: "isl (main sr rows cr)" using 7 by (auto simp: main_def split: sum.splits)
  have 11: "isl (main sr ar rows)" using 8 by (auto simp: main_def Let_def split: sum.splits)
  from 1 2 3 4 5 6 7 8 9 10 11 show ?thesis by blast
qed

theorem blank_caseref_aborts_witness:
  "read_study_contracts [[''CaseRef'' \<mapsto> ''S1'', ''ID'' \<mapsto> ''7''], [''CaseRef'' \<mapsto> '' '', ''ID'' \<mapsto> ''8'']]
     = Inl (MissingCaseRef ''Contract'' 3)
   \<and> read_studies [[''CaseRef'' \<mapsto> ''S1'', ''ID'' \<mapsto> ''7''], [''CaseRef'' \<mapsto> '' '', ''ID'' \<mapsto> ''8'']]
     = Inl (MissingCaseRef ''Study'' 3)"
proof -
  define r0 :: row where "r0 = [''CaseRef'' \<mapsto> ''S1'', ''ID'' \<mapsto> ''7'']"
  define r1 :: row where "r1 = [''CaseRef'' \<mapsto> '' '', ''ID'' \<mapsto> ''8'']"
  have b: "text_field r1 ''CaseRef'' = []" unfolding r1_def by code_simp
  have c0: "\<not> isl (contract_of_row 2 r0)" unfolding r0_def by code_simp
  have s0: "text_field r0 ''CaseRef'' \<noteq> []" unfolding r0_def by code_simp
  have len: "1 < length [r0, r1]" by simp
  have blank: "text_field ([r0, r1] ! 1) ''CaseRef'' = []" using b by simp
  note t = blank_caseref_aborts [OF len blank, where i = 2 and ar = "[]" and cr = "[]" and sr = "[]"]
  have hs: "\<forall>j<1. text_field ([r0, r1] ! j) ''CaseRef'' \<noteq> []" using s0 by simp
  have hc: "\<forall>j<1. \<not> isl (contract_of_row (j + 2) ([r0, r1] ! j))"
    using c0 by (simp add: numeral_2_eq_2)
  have 1: "read_studies [r0, r1] = Inl (MissingCaseRef ''Study'' (1 + 2))"
    by (rule mp [OF t [THEN conjunct2, THEN conjunct2, THEN conjunct1] hs])
  have 2: "read_study_contracts [r0, r1] = Inl (MissingCaseRef ''Contract'' (1 + 2))"
    by (rule mp [OF t [THEN conjunct2, THEN conjunct2, THEN conjunct2, THEN conjunct2,
                       THEN conjunct1] hc])
  have n: "(1::nat) + 2 = 3" by simp
  from 1 2 show ?thesis unfolding n r0_def r1_def by (intro conjI)
qed


section \<open>Properties of the merged studies\<close>

lemma main_items:
  assumes m: "main sr ar cr = Inr (data, issues)" and s: "s \<in> set data"
  shows "s_caseref s \<in> (\<lambda>row. text_field row ''CaseRef'') ` set sr"
    and "\<forall>a\<in>set (s_assets s). a_caseref a = s_caseref s"
    and "\<forall>c\<in>set (s_contracts s). c_caseref c = s_caseref s"
    and "(\<forall>row\<in>set ar. text_field row ''CaseRef'' \<noteq> s_caseref s) \<longrightarrow> s_assets s = []"
    and "(\<forall>row\<in>set cr. text_field row ''CaseRef'' \<noteq> s_caseref s) \<longrightarrow> s_contracts s = []"
    and "sorted (map (\<lambda>a. (a_asset_sp_id a, a_title a)) (s_assets s))"
proof -
  from main_Inr [OF m] obtain studies A C where
    rs: "read_studies sr = Inr studies" and ra: "read_assets_by_case ar = Inr A"
    and rc: "read_study_contracts cr = Inr C" and d: "data = build_import_json studies A C"
    by blast
  from s d obtain k st where kst: "(k, st) \<in> set studies" and sa: "s = attach A C (k, st)"
    by (auto simp: set_build_import_json)
  from studies_items [OF rs kst] have k: "s_caseref st = k"
    and kin: "k \<in> (\<lambda>row. text_field row ''CaseRef'') ` set sr" by blast+
  have cs: "s_caseref s = k" by (simp add: sa attach_fields k)
  from read_assets_from_inv [of 2 "[]" ar A] ra
  have ia: "\<forall>k as. map_of A k = Some as \<longrightarrow> (\<forall>a\<in>set as. a_caseref a = k)"
    and ka: "fst ` set A = (\<lambda>row. text_field row ''CaseRef'') ` set ar"
    by (simp_all add: read_assets_by_case_def)
  from read_contracts_from_inv [of 2 "[]" cr C] rc
  have ic: "\<forall>k cs. map_of C k = Some cs \<longrightarrow> (\<forall>c\<in>set cs. c_caseref c = k)"
    and kc: "fst ` set C = (\<lambda>row. text_field row ''CaseRef'') ` set cr"
    by (simp_all add: read_study_contracts_def)
  show "s_caseref s \<in> (\<lambda>row. text_field row ''CaseRef'') ` set sr" using kin cs by simp
  show "\<forall>a\<in>set (s_assets s). a_caseref a = s_caseref s"
    using ia by (auto simp: sa attach_fields k dest!: dict_get_in)
  show "\<forall>c\<in>set (s_contracts s). c_caseref c = s_caseref s"
    using ic by (auto simp: sa attach_fields k dest!: dict_get_in)
  show "(\<forall>row\<in>set ar. text_field row ''CaseRef'' \<noteq> s_caseref s) \<longrightarrow> s_assets s = []"
  proof
    assume "\<forall>row\<in>set ar. text_field row ''CaseRef'' \<noteq> s_caseref s"
    then have "k \<notin> fst ` set A" unfolding ka cs by auto
    then show "s_assets s = []" by (simp add: sa attach_fields dict_get_absent)
  qed
  show "(\<forall>row\<in>set cr. text_field row ''CaseRef'' \<noteq> s_caseref s) \<longrightarrow> s_contracts s = []"
  proof
    assume "\<forall>row\<in>set cr. text_field row ''CaseRef'' \<noteq> s_caseref s"
    then have "k \<notin> fst ` set C" unfolding kc cs by auto
    then show "s_contracts s = []" by (simp add: sa attach_fields dict_get_absent)
  qed
  show "sorted (map (\<lambda>a. (a_asset_sp_id a, a_title a)) (s_assets s))"
    by (simp add: sa attach_fields)
qed

lemma distinct_map_sort_key: "distinct (map f (sort_key f xs)) = distinct (map f xs)"
  by (induction xs) (simp_all add: distinct_insort_key)

lemma main_caserefs:
  assumes m: "main sr ar cr = Inr (data, issues)"
  shows "sorted (map s_caseref data)" and "distinct (map s_caseref data)"
    and "set (map s_caseref data) = (\<lambda>row. text_field row ''CaseRef'') ` set sr"
proof -
  let ?f = "foldl (\<lambda>st row. AList.update (text_field row ''CaseRef'')
                   (study_of_row (text_field row ''CaseRef'') row) st) [] sr"
  from main_Inr [OF m] obtain studies A C where
    rs: "read_studies sr = Inr studies" and d: "data = build_import_json studies A C"
    by blast
  from read_studies_Inr [OF rs] have st: "studies = ?f" by simp
  have dk: "distinct (map fst studies)" unfolding st by (rule distinct_foldl_studies) simp
  have eq: "map s_caseref (map (attach A C) studies) = map fst studies"
    using studies_items [OF rs] by (auto simp: attach_fields)
  show "sorted (map s_caseref data)" unfolding d build_import_json_def by (rule sorted_sort_key)
  show "distinct (map s_caseref data)"
    unfolding d build_import_json_def distinct_map_sort_key eq by (rule dk)
  have "set (map s_caseref data) = fst ` set studies"
    unfolding d build_import_json_def using eq by (metis set_map set_sort)
  then show "set (map s_caseref data) = (\<lambda>row. text_field row ''CaseRef'') ` set sr"
    unfolding st keys_foldl_studies by simp
qed

lemma sorted_fst_key: "sorted (map (\<lambda>a. (f a, g a)) xs) \<Longrightarrow> sorted (map f xs)"
  by (induction xs) (auto simp: less_eq_prod_def)

text \<open>
  Claim C5: in the output of a run, the studies are those of the study rows, and every
  asset and contract sits under the study whose \<open>caseref\<close> it carries. So an asset or
  contract row whose \<open>CaseRef\<close> is the key of no study is in no collection of the
  output, and a study that no asset (contract) row refers to has no assets (contracts).
\<close>

theorem unmatched_children_dropped:
  assumes "main sr ar cr = Inr (data, issues)"
  shows "set (map s_caseref data) = (\<lambda>row. text_field row ''CaseRef'') ` set sr
       \<and> (\<forall>row\<in>set ar. text_field row ''CaseRef'' \<notin> (\<lambda>row. text_field row ''CaseRef'') ` set sr \<longrightarrow>
            (\<forall>s\<in>set data. \<forall>a\<in>set (s_assets s). a_caseref a \<noteq> text_field row ''CaseRef''))
       \<and> (\<forall>row\<in>set cr. text_field row ''CaseRef'' \<notin> (\<lambda>row. text_field row ''CaseRef'') ` set sr \<longrightarrow>
            (\<forall>s\<in>set data. \<forall>c\<in>set (s_contracts s). c_caseref c \<noteq> text_field row ''CaseRef''))
       \<and> (\<forall>s\<in>set data. (\<forall>a\<in>set (s_assets s). a_caseref a = s_caseref s)
                       \<and> (\<forall>c\<in>set (s_contracts s). c_caseref c = s_caseref s))
       \<and> (\<forall>s\<in>set data. ((\<forall>row\<in>set ar. text_field row ''CaseRef'' \<noteq> s_caseref s) \<longrightarrow> s_assets s = [])
                       \<and> ((\<forall>row\<in>set cr. text_field row ''CaseRef'' \<noteq> s_caseref s) \<longrightarrow> s_contracts s = []))"
proof -
  note i = main_items [OF assms]
  have 1: "set (map s_caseref data) = (\<lambda>row. text_field row ''CaseRef'') ` set sr"
    by (rule main_caserefs(3) [OF assms])
  have 2: "\<forall>row\<in>set ar. text_field row ''CaseRef'' \<notin> (\<lambda>row. text_field row ''CaseRef'') ` set sr \<longrightarrow>
            (\<forall>s\<in>set data. \<forall>a\<in>set (s_assets s). a_caseref a \<noteq> text_field row ''CaseRef'')"
    using i(1,2) by metis
  have 3: "\<forall>row\<in>set cr. text_field row ''CaseRef'' \<notin> (\<lambda>row. text_field row ''CaseRef'') ` set sr \<longrightarrow>
            (\<forall>s\<in>set data. \<forall>c\<in>set (s_contracts s). c_caseref c \<noteq> text_field row ''CaseRef'')"
    using i(1,3) by metis
  have 4: "\<forall>s\<in>set data. (\<forall>a\<in>set (s_assets s). a_caseref a = s_caseref s)
                       \<and> (\<forall>c\<in>set (s_contracts s). c_caseref c = s_caseref s)"
    using i(2,3) by blast
  have 5: "\<forall>s\<in>set data. ((\<forall>row\<in>set ar. text_field row ''CaseRef'' \<noteq> s_caseref s) \<longrightarrow> s_assets s = [])
                       \<and> ((\<forall>row\<in>set cr. text_field row ''CaseRef'' \<noteq> s_caseref s) \<longrightarrow> s_contracts s = [])"
    using i(4,5) by blast
  show ?thesis by (rule conjI [OF 1 conjI [OF 2 conjI [OF 3 conjI [OF 4 5]]]])
qed

theorem unmatched_children_dropped_witness:
  "\<not> isl (main [[''CaseRef'' \<mapsto> ''S1'']]
              [[''CaseRef'' \<mapsto> ''S1'', ''ID'' \<mapsto> ''1''], [''CaseRef'' \<mapsto> ''S9'', ''ID'' \<mapsto> ''2'']] [])
   \<and> set (map s_caseref (fst (projr (main [[''CaseRef'' \<mapsto> ''S1'']]
              [[''CaseRef'' \<mapsto> ''S1'', ''ID'' \<mapsto> ''1''], [''CaseRef'' \<mapsto> ''S9'', ''ID'' \<mapsto> ''2'']] []))))
       = {''S1''}
   \<and> list_all (list_all (HOL.Not \<circ> (=) ''S9'' \<circ> a_caseref) \<circ> s_assets)
        (fst (projr (main [[''CaseRef'' \<mapsto> ''S1'']]
              [[''CaseRef'' \<mapsto> ''S1'', ''ID'' \<mapsto> ''1''], [''CaseRef'' \<mapsto> ''S9'', ''ID'' \<mapsto> ''2'']] [])))"
proof -
  define s0 :: row where "s0 = [''CaseRef'' \<mapsto> ''S1'']"
  define a0 :: row where "a0 = [''CaseRef'' \<mapsto> ''S1'', ''ID'' \<mapsto> ''1'']"
  define a1 :: row where "a1 = [''CaseRef'' \<mapsto> ''S9'', ''ID'' \<mapsto> ''2'']"
  define r where "r = main [s0] [a0, a1] []"
  have n: "\<not> isl r" unfolding r_def s0_def a0_def a1_def by code_simp
  then have m: "main [s0] [a0, a1] [] = Inr (fst (projr r), snd (projr r))"
    unfolding r_def [symmetric] by (cases r) simp_all
  have ks: "text_field s0 ''CaseRef'' = ''S1''" unfolding s0_def by code_simp
  have ka: "text_field a1 ''CaseRef'' = ''S9''" unfolding a1_def by code_simp
  note t = unmatched_children_dropped [OF m]
  have 1: "set (map s_caseref (fst (projr r))) = {''S1''}"
    using t [THEN conjunct1] by (simp add: ks)
  have "a1 \<in> set [a0, a1]" by simp
  from t [THEN conjunct2, THEN conjunct1, THEN bspec, OF this]
  have "\<forall>s\<in>set (fst (projr r)). \<forall>a\<in>set (s_assets s). a_caseref a \<noteq> ''S9''"
    by (simp add: ks ka)
  then have 2: "list_all (list_all (HOL.Not \<circ> (=) ''S9'' \<circ> a_caseref) \<circ> s_assets) (fst (projr r))"
    by (fastforce simp: list_all_iff)
  from n 1 2 show ?thesis unfolding r_def s0_def a0_def a1_def by (intro conjI)
qed

text \<open>
  Claim C10: repeated \<open>CaseRef\<close>s raise no error in \<open>read_studies\<close>, whose only error
  is a blank \<open>CaseRef\<close>: when no row has one, it returns a map with one entry for each
  \<open>CaseRef\<close>, built from the last row that carries it. The output of a run therefore
  has one study for each \<open>CaseRef\<close>, and the validator never reports a duplicate
  \<open>CaseRef\<close> on it.
\<close>

theorem duplicate_studies_last_wins:
  assumes "\<forall>row\<in>set rows. text_field row ''CaseRef'' \<noteq> []"
  shows "(\<exists>studies. read_studies rows = Inr studies
            \<and> distinct (map fst studies)
            \<and> fst ` set studies = (\<lambda>row. text_field row ''CaseRef'') ` set rows
            \<and> (\<forall>c \<in> fst ` set studies. map_of studies c =
                  Some (study_of_row c (last (filter (\<lambda>row. text_field row ''CaseRef'' = c) rows)))))
       \<and> (main rows ar cr = Inr (data, issues) \<longrightarrow>
            distinct (map s_caseref data)
          \<and> set (map s_caseref data) = (\<lambda>row. text_field row ''CaseRef'') ` set rows
          \<and> (\<forall>c. DuplicateCaseRef c \<notin> set issues))"
proof (rule conjI)
  let ?f = "foldl (\<lambda>st row. AList.update (text_field row ''CaseRef'')
                   (study_of_row (text_field row ''CaseRef'') row) st) [] rows"
  have 1: "read_studies rows = Inr ?f"
    unfolding read_studies_def by (rule read_studies_from_ok [OF assms])
  have 2: "distinct (map fst ?f)" by (rule distinct_foldl_studies) simp
  have 3: "fst ` set ?f = (\<lambda>row. text_field row ''CaseRef'') ` set rows"
    by (simp add: keys_foldl_studies)
  have 4: "\<forall>c \<in> fst ` set ?f. map_of ?f c =
                  Some (study_of_row c (last (filter (\<lambda>row. text_field row ''CaseRef'' = c) rows)))"
    unfolding 3 map_of_foldl_studies by auto
  from 1 2 3 4 show "\<exists>studies. read_studies rows = Inr studies
            \<and> distinct (map fst studies)
            \<and> fst ` set studies = (\<lambda>row. text_field row ''CaseRef'') ` set rows
            \<and> (\<forall>c \<in> fst ` set studies. map_of studies c =
                  Some (study_of_row c (last (filter (\<lambda>row. text_field row ''CaseRef'' = c) rows))))"
    by blast
  show "main rows ar cr = Inr (data, issues) \<longrightarrow>
            distinct (map s_caseref data)
          \<and> set (map s_caseref data) = (\<lambda>row. text_field row ''CaseRef'') ` set rows
          \<and> (\<forall>c. DuplicateCaseRef c \<notin> set issues)"
  proof
    assume m: "main rows ar cr = Inr (data, issues)"
    from main_Inr [OF m] have iss: "issues = validate data True" by blast
    have d: "distinct (map s_caseref data)" by (rule main_caserefs(2) [OF m])
    have "count_list issues (DuplicateCaseRef c) = 0" for c
      unfolding iss validate_counts(3) count_list_distinct [OF d] by simp
    then have "\<forall>c. DuplicateCaseRef c \<notin> set issues" by (simp add: count_list_0_iff)
    with d main_caserefs(3) [OF m]
    show "distinct (map s_caseref data)
          \<and> set (map s_caseref data) = (\<lambda>row. text_field row ''CaseRef'') ` set rows
          \<and> (\<forall>c. DuplicateCaseRef c \<notin> set issues)" by blast
  qed
qed

theorem duplicate_studies_last_wins_witness:
  "\<exists>studies. read_studies [[''CaseRef'' \<mapsto> ''S1'', ''Title'' \<mapsto> ''a''],
                             [''CaseRef'' \<mapsto> ''S1'', ''Title'' \<mapsto> ''b'']] = Inr studies
     \<and> distinct (map fst studies)
     \<and> map_of studies ''S1'' =
         Some (study_of_row ''S1'' [''CaseRef'' \<mapsto> ''S1'', ''Title'' \<mapsto> ''b''])"
proof -
  define r0 :: row where "r0 = [''CaseRef'' \<mapsto> ''S1'', ''Title'' \<mapsto> ''a'']"
  define r1 :: row where "r1 = [''CaseRef'' \<mapsto> ''S1'', ''Title'' \<mapsto> ''b'']"
  have k0: "text_field r0 ''CaseRef'' = ''S1''" unfolding r0_def by code_simp
  have k1: "text_field r1 ''CaseRef'' = ''S1''" unfolding r1_def by code_simp
  have h: "\<forall>row\<in>set [r0, r1]. text_field row ''CaseRef'' \<noteq> []" by (simp add: k0 k1)
  from duplicate_studies_last_wins [OF h, THEN conjunct1]
  obtain studies where s: "read_studies [r0, r1] = Inr studies" "distinct (map fst studies)"
    "fst ` set studies = (\<lambda>row. text_field row ''CaseRef'') ` set [r0, r1]"
    "\<forall>c \<in> fst ` set studies. map_of studies c =
        Some (study_of_row c (last (filter (\<lambda>row. text_field row ''CaseRef'' = c) [r0, r1])))"
    by blast
  from s(3) have "''S1'' \<in> fst ` set studies" by (simp add: k0 k1)
  from s(4) [THEN bspec, OF this] have "map_of studies ''S1'' = Some (study_of_row ''S1'' r1)"
    by (simp add: k0 k1)
  with s(1,2) show ?thesis unfolding r0_def r1_def by blast
qed

lemma asset_of_row_line: "asset_of_row i row = Inr a \<Longrightarrow> asset_of_row j row = Inr a"
  by (auto simp: asset_of_row_def Let_def split: if_splits option.splits)

lemma dict_get_append_under:
  "dict_get (append_under ck a g) k [] = dict_get g k [] @ (if k = ck then [a] else [])"
  by (simp add: dict_get_def map_of_append_under split: option.splits)

lemma read_assets_from_filed:
  "read_assets_from i g rows = Inr g' \<Longrightarrow>
   dict_get g' k [] =
     dict_get g k [] @ map (\<lambda>row. projr (asset_of_row j row))
                          (filter (\<lambda>row. text_field row ''CaseRef'' = k) rows)"
proof (induction rows arbitrary: i g)
  case Nil
  then show ?case by simp
next
  case (Cons row rows)
  from Cons.prems obtain a where a: "asset_of_row i row = Inr a"
    and r: "read_assets_from (Suc i) (append_under (a_caseref a) a g) rows = Inr g'"
    by (auto split: sum.splits)
  from asset_of_row_line [OF a] have p: "projr (asset_of_row j row) = a" by simp
  from asset_of_row_Inr [OF a] have c: "a_caseref a = text_field row ''CaseRef''" by simp
  from Cons.IH [OF r] show ?case by (simp add: dict_get_append_under p c)
qed

lemma main_assets:
  assumes m: "main sr ar cr = Inr (data, issues)" and s: "s \<in> set data"
  shows "s_assets s =
     sort_key (\<lambda>a. (a_asset_sp_id a, a_title a))
       (map (\<lambda>row. projr (asset_of_row j row))
          (filter (\<lambda>row. text_field row ''CaseRef'' = s_caseref s) ar))"
proof -
  from main_Inr [OF m] obtain studies A C where
    rs: "read_studies sr = Inr studies" and ra: "read_assets_by_case ar = Inr A"
    and d: "data = build_import_json studies A C"
    by blast
  from s d obtain k st where kst: "(k, st) \<in> set studies" and sa: "s = attach A C (k, st)"
    by (auto simp: set_build_import_json)
  from studies_items [OF rs kst] have k: "s_caseref st = k" by blast
  have cs: "s_caseref s = k" by (simp add: sa attach_fields k)
  from read_assets_from_filed [of 2 "[]" ar A k j] ra
  have "dict_get A k [] = map (\<lambda>row. projr (asset_of_row j row))
                          (filter (\<lambda>row. text_field row ''CaseRef'' = k) ar)"
    by (simp add: read_assets_by_case_def dict_get_def)
  then show ?thesis by (simp add: sa attach_fields k)
qed

text \<open>
  Claim C2, as the specification states it for the contracts: two contract rows of one
  study with the identities \<open>2\<close> and \<open>1\<close>, in this order, stay in this order in the
  output, which is not sorted.
\<close>

theorem contracts_unsorted_counterexample:
  "\<not> isl (main [[''CaseRef'' \<mapsto> ''S1'']] []
              [[''CaseRef'' \<mapsto> ''S1'', ''ID'' \<mapsto> ''2''], [''CaseRef'' \<mapsto> ''S1'', ''ID'' \<mapsto> ''1'']])
   \<and> map (map c_contract_sp_id \<circ> s_contracts)
        (fst (projr (main [[''CaseRef'' \<mapsto> ''S1'']] []
              [[''CaseRef'' \<mapsto> ''S1'', ''ID'' \<mapsto> ''2''], [''CaseRef'' \<mapsto> ''S1'', ''ID'' \<mapsto> ''1'']])))
       = [[''2'', ''1'']]
   \<and> \<not> sorted [''2'', ''1'' :: string]"
  by code_simp

text \<open>
  Claim C2, amended: the merged records are in strictly ascending order of their
  identity, the studies of the output in strictly ascending order of their \<open>caseref\<close>,
  both in the ordinal order of strings, and the sequence of top-level keys is determined
  by the set of keys alone, whatever the order of the rows. The assets of a study are
  the assets of the asset rows that carry its \<open>caseref\<close>, sorted stably by
  \<open>asset_sp_id\<close>, then \<open>title\<close>: they are in ascending order of this key, and
  assets with equal keys keep the order of their rows. (The line number \<open>i\<close> given
  to \<open>asset_of_row\<close> only enters its error messages.)
\<close>

theorem output_sorted:
  "sorted (map username (merge_users training agreements))
   \<and> distinct (map username (merge_users training agreements))
   \<and> map username (merge_users training agreements) =
       sorted_list_of_set (fst ` set training \<union> fst ` set agreements)
   \<and> sorted (map s_caseref (build_import_json studies A C))
   \<and> (\<forall>s \<in> set (build_import_json studies A C).
         sorted (map (\<lambda>a. (a_asset_sp_id a, a_title a)) (s_assets s)))
   \<and> (\<forall>item \<in> set studies.
         s_assets (attach A C item) =
           sort_key (\<lambda>a. (a_asset_sp_id a, a_title a)) (dict_get A (fst item) []))
   \<and> (main sr ar cr = Inr (data, issues) \<longrightarrow>
         sorted (map s_caseref data) \<and> distinct (map s_caseref data)
       \<and> map s_caseref data = sorted_list_of_set ((\<lambda>row. text_field row ''CaseRef'') ` set sr)
       \<and> (\<forall>s \<in> set data. sorted (map (\<lambda>a. (a_asset_sp_id a, a_title a)) (s_assets s)))
       \<and> (\<forall>s \<in> set data.
             s_assets s =
               sort_key (\<lambda>a. (a_asset_sp_id a, a_title a))
                 (map (\<lambda>row. projr (asset_of_row i row))
                    (filter (\<lambda>row. text_field row ''CaseRef'' = s_caseref s) ar)))
       \<and> (\<forall>s \<in> set data. \<forall>k.
             filter (\<lambda>a. (a_asset_sp_id a, a_title a) = k) (s_assets s) =
               filter (\<lambda>a. (a_asset_sp_id a, a_title a) = k)
                 (map (\<lambda>row. projr (asset_of_row i row))
                    (filter (\<lambda>row. text_field row ''CaseRef'' = s_caseref s) ar))))"
proof -
  have 1: "map username (merge_users training agreements) =
       sorted_list_of_set (fst ` set training \<union> fst ` set agreements)"
    by (simp add: merge_users_def Let_def comp_def)
  have 2: "sorted (map username (merge_users training agreements))" unfolding 1 by simp
  have 3: "distinct (map username (merge_users training agreements))" unfolding 1 by simp
  have 4: "sorted (map s_caseref (build_import_json studies A C))"
    unfolding build_import_json_def by (rule sorted_sort_key)
  have 5: "\<forall>s \<in> set (build_import_json studies A C).
         sorted (map (\<lambda>a. (a_asset_sp_id a, a_title a)) (s_assets s))"
    by (auto simp: set_build_import_json attach_fields)
  have 6: "\<forall>item \<in> set studies.
         s_assets (attach A C item) =
           sort_key (\<lambda>a. (a_asset_sp_id a, a_title a)) (dict_get A (fst item) [])"
    by (auto simp: attach_fields)
  have 7: "main sr ar cr = Inr (data, issues) \<longrightarrow>
         sorted (map s_caseref data) \<and> distinct (map s_caseref data)
       \<and> map s_caseref data = sorted_list_of_set ((\<lambda>row. text_field row ''CaseRef'') ` set sr)
       \<and> (\<forall>s \<in> set data. sorted (map (\<lambda>a. (a_asset_sp_id a, a_title a)) (s_assets s)))
       \<and> (\<forall>s \<in> set data.
             s_assets s =
               sort_key (\<lambda>a. (a_asset_sp_id a, a_title a))
                 (map (\<lambda>row. projr (asset_of_row i row))
                    (filter (\<lambda>row. text_field row ''CaseRef'' = s_caseref s) ar)))
       \<and> (\<forall>s \<in> set data. \<forall>k.
             filter (\<lambda>a. (a_asset_sp_id a, a_title a) = k) (s_assets s) =
               filter (\<lambda>a. (a_asset_sp_id a, a_title a) = k)
                 (map (\<lambda>row. projr (asset_of_row i row))
                    (filter (\<lambda>row. text_field row ''CaseRef'' = s_caseref s) ar)))"
  proof
    assume m: "main sr ar cr = Inr (data, issues)"
    note c = main_caserefs [OF m]
    have "sorted_list_of_set (set (map s_caseref data)) = map s_caseref data"
      by (rule sorted_list_of_set.idem_if_sorted_distinct [OF c(1) c(2)])
    then have e: "map s_caseref data = sorted_list_of_set ((\<lambda>row. text_field row ''CaseRef'') ` set sr)"
      unfolding c(3) by simp
    have a: "\<forall>s \<in> set data. sorted (map (\<lambda>a. (a_asset_sp_id a, a_title a)) (s_assets s))"
      using main_items(6) [OF m] by blast
    have f: "\<forall>s \<in> set data.
             s_assets s =
               sort_key (\<lambda>a. (a_asset_sp_id a, a_title a))
                 (map (\<lambda>row. projr (asset_of_row i row))
                    (filter (\<lambda>row. text_field row ''CaseRef'' = s_caseref s) ar))"
      using main_assets [OF m] by blast
    have g: "\<forall>s \<in> set data. \<forall>k.
             filter (\<lambda>a. (a_asset_sp_id a, a_title a) = k) (s_assets s) =
               filter (\<lambda>a. (a_asset_sp_id a, a_title a) = k)
                 (map (\<lambda>row. projr (asset_of_row i row))
                    (filter (\<lambda>row. text_field row ''CaseRef'' = s_caseref s) ar))"
    proof (intro ballI allI)
      fix s k assume "s \<in> set data"
      with f have "s_assets s =
               sort_key (\<lambda>a. (a_asset_sp_id a, a_title a))
                 (map (\<lambda>row. projr (asset_of_row i row))
                    (filter (\<lambda>row. text_field row ''CaseRef'' = s_caseref s) ar))" by blast
      then show "filter (\<lambda>a. (a_asset_sp_id a, a_title a) = k) (s_assets s) =
               filter (\<lambda>a. (a_asset_sp_id a, a_title a) = k)
                 (map (\<lambda>row. projr (asset_of_row i row))
                    (filter (\<lambda>row. text_field row ''CaseRef'' = s_caseref s) ar))"
        by (simp only: sort_key_stable)
    qed
    show "sorted (map s_caseref data) \<and> distinct (map s_caseref data)
       \<and> map s_caseref data = sorted_list_of_set ((\<lambda>row. text_field row ''CaseRef'') ` set sr)
       \<and> (\<forall>s \<in> set data. sorted (map (\<lambda>a. (a_asset_sp_id a, a_title a)) (s_assets s)))
       \<and> (\<forall>s \<in> set data.
             s_assets s =
               sort_key (\<lambda>a. (a_asset_sp_id a, a_title a))
                 (map (\<lambda>row. projr (asset_of_row i row))
                    (filter (\<lambda>row. text_field row ''CaseRef'' = s_caseref s) ar)))
       \<and> (\<forall>s \<in> set data. \<forall>k.
             filter (\<lambda>a. (a_asset_sp_id a, a_title a) = k) (s_assets s) =
               filter (\<lambda>a. (a_asset_sp_id a, a_title a) = k)
                 (map (\<lambda>row. projr (asset_of_row i row))
                    (filter (\<lambda>row. text_field row ''CaseRef'' = s_caseref s) ar)))"
      by (rule conjI [OF c(1) conjI [OF c(2) conjI [OF e conjI [OF a conjI [OF f g]]]]])
  qed
  show ?thesis
    by (rule conjI [OF 2 conjI [OF 3 conjI [OF 1 conjI [OF 4 conjI [OF 5 conjI [OF 6 7]]]]]])
qed

theorem output_sorted_witness:
  "\<not> isl (main [[''CaseRef'' \<mapsto> ''S2''], [''CaseRef'' \<mapsto> ''S1'']]
              [[''CaseRef'' \<mapsto> ''S1'', ''ID'' \<mapsto> ''2'', ''Format'' \<mapsto> ''p''],
               [''CaseRef'' \<mapsto> ''S1'', ''ID'' \<mapsto> ''1'', ''Format'' \<mapsto> ''x''],
               [''CaseRef'' \<mapsto> ''S1'', ''ID'' \<mapsto> ''1'', ''Format'' \<mapsto> ''y'']] [])
   \<and> sorted (map s_caseref (fst (projr (main [[''CaseRef'' \<mapsto> ''S2''], [''CaseRef'' \<mapsto> ''S1'']]
              [[''CaseRef'' \<mapsto> ''S1'', ''ID'' \<mapsto> ''2'', ''Format'' \<mapsto> ''p''],
               [''CaseRef'' \<mapsto> ''S1'', ''ID'' \<mapsto> ''1'', ''Format'' \<mapsto> ''x''],
               [''CaseRef'' \<mapsto> ''S1'', ''ID'' \<mapsto> ''1'', ''Format'' \<mapsto> ''y'']] []))))
   \<and> list_all (sorted \<circ> map a_asset_sp_id \<circ> s_assets)
        (fst (projr (main [[''CaseRef'' \<mapsto> ''S2''], [''CaseRef'' \<mapsto> ''S1'']]
              [[''CaseRef'' \<mapsto> ''S1'', ''ID'' \<mapsto> ''2'', ''Format'' \<mapsto> ''p''],
               [''CaseRef'' \<mapsto> ''S1'', ''ID'' \<mapsto> ''1'', ''Format'' \<mapsto> ''x''],
               [''CaseRef'' \<mapsto> ''S1'', ''ID'' \<mapsto> ''1'', ''Format'' \<mapsto> ''y'']] [])))
   \<and> map a_format (s_assets (hd (fst (projr (main [[''CaseRef'' \<mapsto> ''S2''], [''CaseRef'' \<mapsto> ''S1'']]
              [[''CaseRef'' \<mapsto> ''S1'', ''ID'' \<mapsto> ''2'', ''Format'' \<mapsto> ''p''],
               [''CaseRef'' \<mapsto> ''S1'', ''ID'' \<mapsto> ''1'', ''Format'' \<mapsto> ''x''],
               [''CaseRef'' \<mapsto> ''S1'', ''ID'' \<mapsto> ''1'', ''Format'' \<mapsto> ''y'']] [])))))
       = [''x'', ''y'', ''p'']"
proof -
  define s0 :: row where "s0 = [''CaseRef'' \<mapsto> ''S2'']"
  define s1 :: row where "s1 = [''CaseRef'' \<mapsto> ''S1'']"
  define a0 :: row where "a0 = [''CaseRef'' \<mapsto> ''S1'', ''ID'' \<mapsto> ''2'', ''Format'' \<mapsto> ''p'']"
  define a1 :: row where "a1 = [''CaseRef'' \<mapsto> ''S1'', ''ID'' \<mapsto> ''1'', ''Format'' \<mapsto> ''x'']"
  define a2 :: row where "a2 = [''CaseRef'' \<mapsto> ''S1'', ''ID'' \<mapsto> ''1'', ''Format'' \<mapsto> ''y'']"
  define r where "r = main [s0, s1] [a0, a1, a2] []"
  have n: "\<not> isl r" unfolding r_def s0_def s1_def a0_def a1_def a2_def by code_simp
  then have m: "main [s0, s1] [a0, a1, a2] [] = Inr (fst (projr r), snd (projr r))"
    unfolding r_def [symmetric] by (cases r) simp_all
  have ne: "fst (projr r) \<noteq> []" unfolding r_def s0_def s1_def a0_def a1_def a2_def by code_simp
  have c: "s_caseref (hd (fst (projr r))) = ''S1''"
    unfolding r_def s0_def s1_def a0_def a1_def a2_def by code_simp
  have e: "map a_format
      (sort_key (\<lambda>a. (a_asset_sp_id a, a_title a))
         (map (\<lambda>row. projr (asset_of_row 2 row))
            (filter (\<lambda>row. text_field row ''CaseRef'' = ''S1'') [a0, a1, a2])))
      = [''x'', ''y'', ''p'']"
    unfolding a0_def a1_def a2_def by code_simp
  note t = mp [OF output_sorted [where training = "[]" and agreements = "[]" and studies = "[]"
                  and A = "[]" and C = "[]" and i = 2, THEN conjunct2, THEN conjunct2,
                  THEN conjunct2, THEN conjunct2, THEN conjunct2, THEN conjunct2] m]
  have 1: "sorted (map s_caseref (fst (projr r)))" by (rule t [THEN conjunct1])
  have "\<forall>s \<in> set (fst (projr r)). sorted (map (\<lambda>a. (a_asset_sp_id a, a_title a)) (s_assets s))"
    by (rule t [THEN conjunct2, THEN conjunct2, THEN conjunct2, THEN conjunct1])
  then have "\<forall>s \<in> set (fst (projr r)). sorted (map a_asset_sp_id (s_assets s))"
    by (blast intro: sorted_fst_key)
  then have 2: "list_all (sorted \<circ> map a_asset_sp_id \<circ> s_assets) (fst (projr r))"
    by (simp add: list_all_iff comp_def)
  have h: "hd (fst (projr r)) \<in> set (fst (projr r))" using ne by simp
  have "s_assets (hd (fst (projr r))) =
      sort_key (\<lambda>a. (a_asset_sp_id a, a_title a))
         (map (\<lambda>row. projr (asset_of_row 2 row))
            (filter (\<lambda>row. text_field row ''CaseRef'' = s_caseref (hd (fst (projr r)))) [a0, a1, a2]))"
    by (rule bspec [OF t [THEN conjunct2, THEN conjunct2, THEN conjunct2, THEN conjunct2,
                          THEN conjunct1] h])
  then have 3: "map a_format (s_assets (hd (fst (projr r)))) = [''x'', ''y'', ''p'']"
    unfolding c by (simp only: e)
  from n 1 2 3 show ?thesis unfolding r_def s0_def s1_def a0_def a1_def a2_def by (intro conjI)
qed


section \<open>Properties of the date parser\<close>

text \<open>
  Claim C7 at the text \<open>01/01/0999\<close>: the two examples of the claim hold, but for a
  year below 1000 \<open>parse_date\<close> accepts the text and returns the year without its
  leading zero. The result is not the ISO string, \<open>validate_json_date\<close> rejects it,
  and a run reports the date it has just produced as an invalid \<open>expires_at\<close>.
\<close>

theorem parse_date_year_below_1000:
  "parse_date (Some ''05/03/2024'') = Some ''2024-03-05''
   \<and> parse_date (Some ''2024-03-05'') = None
   \<and> parse_date (Some ''01/01/0999'') = Some ''999-01-01''
   \<and> validate_json_date (Some ''999-01-01'') = None
   \<and> map_sum id snd
        (main [[''CaseRef'' \<mapsto> ''S1'']]
              [[''CaseRef'' \<mapsto> ''S1'', ''ID'' \<mapsto> ''1'',
                ''Next Scheduled Review'' \<mapsto> ''01/01/0999'']] [])
       = Inr [InvalidExpiresAt ''S1'' ''1'' ''999-01-01'']"
  by code_simp

end
